theory Spec2Isabelle
  imports Main "HOL-Library.Word"
begin

section \<open>Common data: bytes, typed arrays, errors, the enum registry\<close>

text \<open>
  A \<open>Uint8Array\<close> is a list of octets. A JavaScript number that only ever holds a
  length, an index or an octet is a \<open>nat\<close>; storing it into a \<open>Uint8Array\<close> keeps it
  modulo 256, which is what \<open>of_nat\<close> into \<open>8 word\<close> does.
\<close>

type_synonym byte = "8 word"

text \<open>A thrown JavaScript error: its \<open>name\<close> and its \<open>message\<close>.\<close>

datatype error = Error (err_name: string) (err_message: string)

definition new_Error :: "string \<Rightarrow> error" where
  "new_Error msg = Error ''Error'' msg"

text \<open>
  \<open>bytes[i]\<close> on a typed array: the octet, or \<open>undefined\<close> (here \<open>None\<close>) out of range.
\<close>

definition at_index :: "byte list \<Rightarrow> nat \<Rightarrow> nat option" where
  "at_index bytes i = (if i < length bytes then Some (unat (bytes ! i)) else None)"

text \<open>
  \<open>bytes.subarray(begin, end)\<close>: a negative index counts from the end, and both ends are
  clamped to the array.
\<close>

definition clamp_index :: "nat \<Rightarrow> int \<Rightarrow> nat" where
  "clamp_index len i = (if i < 0 then nat (max (int len + i) 0) else min (nat i) len)"

definition subarray :: "byte list \<Rightarrow> int \<Rightarrow> int \<Rightarrow> byte list" where
  "subarray bytes b e =
     (let lo = clamp_index (length bytes) b; hi = clamp_index (length bytes) e
      in take (hi - lo) (drop lo bytes))"

definition subarray_from :: "byte list \<Rightarrow> int \<Rightarrow> byte list" where
  "subarray_from bytes b = subarray bytes b (int (length bytes))"


text \<open>
  Modelled from the spec: \<open>util.writeNumber(n, bytes)\<close> of \<open>src/util\<close>, which is not
  among the sources; the spec writes it \<open>uint16be(len)\<close> and \<open>uint32be(len)\<close>: the
  big-endian encoding of \<open>n\<close> on \<open>bytes\<close> octets.
\<close>

definition writeNumber :: "nat \<Rightarrow> nat \<Rightarrow> byte list" where
  "writeNumber n bytes = map (\<lambda>i. of_nat (n div 2 ^ (8 * (bytes - i - 1)))) [0..<bytes]"

text \<open>
  Modelled from the spec: the algorithm registry \<open>src/enums\<close>, which is not among the
  sources: for each enumerated domain a table of symbolic names and numeric codes,
  \<open>read\<close> from a code to its name and \<open>write\<close> from a name (or a code) to its code, both
  failing when the entry is absent from the registry. The tables are a parameter.
\<close>

datatype enum_type = E_packet | E_publicKey | E_hash | E_signature | E_symmetric | E_aead

datatype enum_val = Name string | Code nat

type_synonym registry = "enum_type \<Rightarrow> (string \<times> nat) list"

definition enums_read :: "registry \<Rightarrow> enum_type \<Rightarrow> nat \<Rightarrow> error + string" where
  "enums_read reg ty e =
     (case find (\<lambda>kv. snd kv = e) (rev (reg ty)) of
        Some kv \<Rightarrow> Inr (fst kv)
      | None \<Rightarrow> Inl (new_Error ''Invalid enum value.''))"

definition enums_write_name :: "registry \<Rightarrow> enum_type \<Rightarrow> string \<Rightarrow> error + nat" where
  "enums_write_name reg ty e =
     (case map_of (rev (reg ty)) e of
        Some c \<Rightarrow> Inr c
      | None \<Rightarrow> Inl (new_Error ''Invalid enum value.''))"

definition enums_write :: "registry \<Rightarrow> enum_type \<Rightarrow> enum_val option \<Rightarrow> error + nat" where
  "enums_write reg ty e =
     (case e of
        None \<Rightarrow> Inl (new_Error ''Invalid enum value.'')
      | Some (Name s) \<Rightarrow> enums_write_name reg ty s
      | Some (Code n) \<Rightarrow>
          (case enums_read reg ty n of
             Inl err \<Rightarrow> Inl err
           | Inr s \<Rightarrow> enums_write_name reg ty s))"

text \<open>
  Modelled from the spec: the key identifier type \<open>src/type/keyid\<close>, which is not among
  the sources: an 8-byte truncation of the fingerprint. \<open>read\<close> keeps the first eight
  octets it is given, \<open>write\<close> gives them back.
\<close>

record KeyID =
  keyid_bytes :: "byte list"

definition new_KeyID :: KeyID where
  "new_KeyID = \<lparr>keyid_bytes = []\<rparr>"

definition KeyID_read :: "byte list \<Rightarrow> KeyID" where
  "KeyID_read bytes = \<lparr>keyid_bytes = subarray bytes 0 8\<rparr>"


section \<open>The One-Pass Signature packet (\<open>src/packet/one_pass_signature.js\<close>)\<close>

text \<open>
  The fields start as \<open>null\<close> (\<open>None\<close>). \<open>read\<close> stores octets of the body, or
  \<open>undefined\<close> (also \<open>None\<close>) where the body is too short.
\<close>

record OnePassSignaturePacket =
  ops_version :: "nat option"
  signatureType :: "enum_val option"
  hashAlgorithm :: "enum_val option"
  publicKeyAlgorithm :: "enum_val option"
  issuerKeyID :: "KeyID option"
  flags :: "nat option"

definition new_OnePassSignaturePacket :: OnePassSignaturePacket where
  "new_OnePassSignaturePacket =
     \<lparr>ops_version = None, signatureType = None, hashAlgorithm = None,
      publicKeyAlgorithm = None, issuerKeyID = None, flags = None\<rparr>"

text \<open>
  \<open>read(bytes)\<close>: thirteen reads by position and no check at all; no statement of the
  method throws, so the result is always \<open>Inr\<close>.
\<close>

definition ops_read ::
  "OnePassSignaturePacket \<Rightarrow> byte list \<Rightarrow> error + OnePassSignaturePacket" where
  "ops_read this bytes =
     Inr (this\<lparr>ops_version := at_index bytes 0,
               signatureType := map_option Code (at_index bytes 1),
               hashAlgorithm := map_option Code (at_index bytes 2),
               publicKeyAlgorithm := map_option Code (at_index bytes 3),
               issuerKeyID := Some (KeyID_read (subarray bytes 4 (4 + 8))),
               flags := at_index bytes 12\<rparr>)"


text \<open>A small registry and a thirteen-octet body, for the examples.\<close>

definition example_registry :: registry where
  "example_registry ty =
     (case ty of
        E_signature \<Rightarrow> [(''binary'', 0), (''text'', 1)]
      | E_hash \<Rightarrow> [(''sha1'', 2), (''sha256'', 8)]
      | E_publicKey \<Rightarrow> [(''rsaEncryptSign'', 1), (''ecdsa'', 19)]
      | E_symmetric \<Rightarrow> [(''aes128'', 7), (''aes256'', 9)]
      | E_aead \<Rightarrow> [(''eax'', 1)]
      | E_packet \<Rightarrow> [(''onePassSignature'', 4), (''literalData'', 11)])"

definition example_ops_body :: "nat \<Rightarrow> byte list" where
  "example_ops_body v = [of_nat v, 0, 8, 19, 1, 2, 3, 4, 5, 6, 7, 8, 1]"


section \<open>ECDSA signing (\<open>src/crypto/public_key/elliptic/ecdsa.js\<close>)\<close>

text \<open>
  The \<open>message\<close> argument of \<open>sign\<close>: absent (\<open>null\<close> or \<open>undefined\<close>, the only falsy
  values it takes), a \<open>Uint8Array\<close> (an object, truthy even when empty) or a stream of
  chunks. \<open>util.isStream\<close> tells the last one apart.
\<close>

datatype message = NoMessage | Bytes "byte list" | Stream "byte list list"

definition truthy :: "message \<Rightarrow> bool" where
  "truthy m = (case m of NoMessage \<Rightarrow> False | _ \<Rightarrow> True)"

definition isStream :: "message \<Rightarrow> bool" where
  "isStream m = (case m of Stream _ \<Rightarrow> True | _ \<Rightarrow> False)"

text \<open>
  \<open>new Curve(oid)\<close> comes from \<open>./curves\<close>, which is not among the sources; \<open>sign\<close> reads
  its \<open>type\<close> (\<open>'web'\<close>, \<open>'node'\<close>, or neither) and its \<open>name\<close>.
\<close>

datatype curve_type = Web | Node | NoPlatform

record curve =
  curve_oid :: "byte list"
  curve_name :: string
  curve_tier :: curve_type

record signature =
  sig_r :: "byte list"
  sig_s :: "byte list"

record keyPair =
  kp_publicKey :: "byte list"
  kp_privateKey :: "byte list"

text \<open>
  The collaborators of \<open>sign\<close>: the curve constructor, the two platform signers
  (\<open>webSign\<close> over WebCrypto, \<open>nodeSign\<close> over Node's crypto) and the software signer
  \<open>ellipticSign\<close>, which sees the digest only. Each may throw.
\<close>

record ecdsa_env =
  new_Curve :: "byte list \<Rightarrow> error + curve"
  webSign :: "curve \<Rightarrow> nat \<Rightarrow> message \<Rightarrow> keyPair \<Rightarrow> error + signature"
  nodeSign :: "curve \<Rightarrow> nat \<Rightarrow> message \<Rightarrow> keyPair \<Rightarrow> error + signature"
  ellipticSign :: "curve \<Rightarrow> byte list \<Rightarrow> byte list \<Rightarrow> error + signature"

definition sign ::
  "ecdsa_env \<Rightarrow> byte list \<Rightarrow> nat \<Rightarrow> message \<Rightarrow> byte list \<Rightarrow> byte list \<Rightarrow> byte list
     \<Rightarrow> error + signature" where
  "sign env oid hashAlgo message publicKey privateKey hashed =
     (case new_Curve env oid of
        Inl err \<Rightarrow> Inl err
      | Inr curve \<Rightarrow>
          if truthy message \<and> \<not> isStream message then
            (let keyPair = \<lparr>kp_publicKey = publicKey, kp_privateKey = privateKey\<rparr> in
             case curve_tier curve of
               Web \<Rightarrow>
                 (case webSign env curve hashAlgo message keyPair of
                    Inr sg \<Rightarrow> Inr sg
                  | Inl err \<Rightarrow>
                      if curve_name curve \<noteq> ''p521'' \<and>
                         (err_name err = ''DataError'' \<or> err_name err = ''OperationError'')
                      then Inl err
                      else ellipticSign env curve hashed privateKey)
             | Node \<Rightarrow>
                 (case nodeSign env curve hashAlgo message keyPair of
                    Inl err \<Rightarrow> Inl err
                  | Inr sg \<Rightarrow> Inr \<lparr>sig_r = sig_r sg, sig_s = sig_s sg\<rparr>)
             | NoPlatform \<Rightarrow> ellipticSign env curve hashed privateKey)
          else ellipticSign env curve hashed privateKey)"

text \<open>
  An environment for the examples: every curve is a \<open>'web'\<close> curve, the platform signers
  answer with a signature made of the message, the software signer with one made of the
  digest and the private key.
\<close>

definition message_bytes :: "message \<Rightarrow> byte list" where
  "message_bytes m = (case m of NoMessage \<Rightarrow> [] | Bytes b \<Rightarrow> b | Stream cs \<Rightarrow> concat cs)"

definition example_ecdsa_env :: ecdsa_env where
  "example_ecdsa_env =
     \<lparr>new_Curve = (\<lambda>oid. Inr \<lparr>curve_oid = oid, curve_name = ''p256'', curve_tier = Web\<rparr>),
      webSign = (\<lambda>c h m kp. Inr \<lparr>sig_r = message_bytes m, sig_s = [1]\<rparr>),
      nodeSign = (\<lambda>c h m kp. Inr \<lparr>sig_r = message_bytes m, sig_s = [2]\<rparr>),
      ellipticSign = (\<lambda>c d k. Inr \<lparr>sig_r = d, sig_s = k\<rparr>)\<rparr>"

section \<open>The Public-Key packet (\<open>src/packet/public_key.js\<close>)\<close>

text \<open>
  The packet's fields. \<open>created\<close> is a date and \<open>publicParams\<close> an algorithm-specific
  object; both are only handed to collaborators, so their types are left open.
  \<open>fingerprint\<close> and \<open>keyID\<close> are the two caches, \<open>null\<close> (\<open>None\<close>) until first asked
  for. Every field is a public property that callers may assign.
\<close>

record ('d, 'p) PublicKeyPacket =
  version :: nat
  created :: 'd
  algorithm :: "enum_val option"
  publicParams :: 'p
  expirationTimeV3 :: nat
  fingerprint :: "byte list option"
  keyID :: "KeyID option"

text \<open>
  The collaborators of the packet, none of them among the sources: the registry,
  \<open>util.writeDate\<close>, \<open>crypto.serializeParams\<close> (which may throw), the two hash
  functions \<open>Sha1.bytes\<close> and \<open>Sha256.bytes\<close>, and the two hex conversions of \<open>util\<close>.
\<close>

record ('d, 'p) pk_env =
  pk_registry :: registry
  writeDate :: "'d \<Rightarrow> byte list"
  serializeParams :: "nat \<Rightarrow> 'p \<Rightarrow> error + byte list"
  Sha1_bytes :: "byte list \<Rightarrow> byte list"
  Sha256_bytes :: "byte list \<Rightarrow> byte list"
  uint8ArrayToHex :: "byte list \<Rightarrow> string"
  hexToUint8Array :: "string \<Rightarrow> byte list"

text \<open>\<open>write()\<close>, which the source also names \<open>writePublicKey\<close>.\<close>

definition writePublicKey ::
  "('d, 'p, 'y) pk_env_scheme \<Rightarrow> ('d, 'p, 'z) PublicKeyPacket_scheme \<Rightarrow> error + byte list" where
  "writePublicKey env this =
     (case enums_write (pk_registry env) E_publicKey (algorithm this) of
        Inl err \<Rightarrow> Inl err
      | Inr algo \<Rightarrow>
     (case serializeParams env algo (publicParams this) of
        Inl err \<Rightarrow> Inl err
      | Inr params \<Rightarrow>
          Inr ([of_nat (version this)] @ writeDate env (created this) @ [of_nat algo]
               @ (if version this = 5 then writeNumber (length params) 4 else [])
               @ params)))"

definition writeForHash ::
  "('d, 'p, 'y) pk_env_scheme \<Rightarrow> ('d, 'p, 'z) PublicKeyPacket_scheme \<Rightarrow> nat \<Rightarrow> error + byte list" where
  "writeForHash env this v =
     (case writePublicKey env this of
        Inl err \<Rightarrow> Inl err
      | Inr bytes \<Rightarrow>
          if v = 5 then Inr ([0x9A] @ writeNumber (length bytes) 4 @ bytes)
          else Inr ([0x99] @ writeNumber (length bytes) 2 @ bytes))"

text \<open>
  \<open>getFingerprintBytes()\<close>: the cached value when there is one; otherwise the hash of
  \<open>writeForHash(this.version)\<close>, stored in \<open>this.fingerprint\<close>. For a version that is
  neither 4 nor 5 nothing is stored and \<open>null\<close> is returned. The result comes with the
  packet as the call leaves it.
\<close>

definition getFingerprintBytes ::
  "('d, 'p, 'y) pk_env_scheme \<Rightarrow> ('d, 'p, 'z) PublicKeyPacket_scheme
     \<Rightarrow> (error + byte list option) \<times> ('d, 'p, 'z) PublicKeyPacket_scheme" where
  "getFingerprintBytes env this =
     (case fingerprint this of
        Some fp \<Rightarrow> (Inr (Some fp), this)
      | None \<Rightarrow>
          (case writeForHash env this (version this) of
             Inl err \<Rightarrow> (Inl err, this)
           | Inr toHash \<Rightarrow>
               if version this = 5 then
                 (Inr (Some (Sha256_bytes env toHash)),
                  this\<lparr>fingerprint := Some (Sha256_bytes env toHash)\<rparr>)
               else if version this = 4 then
                 (Inr (Some (Sha1_bytes env toHash)),
                  this\<lparr>fingerprint := Some (Sha1_bytes env toHash)\<rparr>)
               else (Inr None, this)))"

text \<open>\<open>getFingerprint()\<close>: the hex form; a \<open>null\<close> fingerprint makes the conversion throw.\<close>

definition getFingerprint ::
  "('d, 'p, 'y) pk_env_scheme \<Rightarrow> ('d, 'p, 'z) PublicKeyPacket_scheme
     \<Rightarrow> (error + string) \<times> ('d, 'p, 'z) PublicKeyPacket_scheme" where
  "getFingerprint env this =
     (case getFingerprintBytes env this of
        (Inl err, this') \<Rightarrow> (Inl err, this')
      | (Inr None, this') \<Rightarrow> (Inl (Error ''TypeError'' ''Cannot read properties of null''), this')
      | (Inr (Some fp), this') \<Rightarrow> (Inr (uint8ArrayToHex env fp), this'))"

text \<open>
  \<open>getKeyID()\<close>: the cached key id when there is one; otherwise a new \<open>KeyID\<close> is stored
  first and then filled from the fingerprint, octets 0 to 8 for version 5 and 12 to 20
  for version 4 (and left empty for any other version).
\<close>

definition getKeyID ::
  "('d, 'p, 'y) pk_env_scheme \<Rightarrow> ('d, 'p, 'z) PublicKeyPacket_scheme
     \<Rightarrow> (error + KeyID) \<times> ('d, 'p, 'z) PublicKeyPacket_scheme" where
  "getKeyID env this =
     (case keyID this of
        Some k \<Rightarrow> (Inr k, this)
      | None \<Rightarrow>
          (let this1 = this\<lparr>keyID := Some new_KeyID\<rparr> in
           if version this1 = 5 then
             (case getFingerprint env this1 of
                (Inl err, this2) \<Rightarrow> (Inl err, this2)
              | (Inr hex, this2) \<Rightarrow>
                  (let k = KeyID_read (subarray (hexToUint8Array env hex) 0 8)
                   in (Inr k, this2\<lparr>keyID := Some k\<rparr>)))
           else if version this1 = 4 then
             (case getFingerprint env this1 of
                (Inl err, this2) \<Rightarrow> (Inl err, this2)
              | (Inr hex, this2) \<Rightarrow>
                  (let k = KeyID_read (subarray (hexToUint8Array env hex) 12 20)
                   in (Inr k, this2\<lparr>keyID := Some k\<rparr>)))
           else (Inr new_KeyID, this1)))"

text \<open>
  An environment for the examples. Dates and parameters are already octets; the hex
  conversions are the usual ones (two lowercase digits per octet); the two hashes are
  stand-ins of the right output length (20 and 32 octets), not SHA-1 and SHA-256.
\<close>

definition hex_digit :: "nat \<Rightarrow> char" where
  "hex_digit n = ''0123456789abcdef'' ! n"

definition hex_value :: "char \<Rightarrow> nat" where
  "hex_value c = length (takeWhile (\<lambda>d. d \<noteq> c) ''0123456789abcdef'')"

definition example_toHex :: "byte list \<Rightarrow> string" where
  "example_toHex bs =
     concat (map (\<lambda>b. [hex_digit (unat b div 16), hex_digit (unat b mod 16)]) bs)"

fun example_fromHex :: "string \<Rightarrow> byte list" where
  "example_fromHex (a # b # rest) = of_nat (hex_value a * 16 + hex_value b) # example_fromHex rest"
| "example_fromHex _ = []"

definition example_pk_env :: "(byte list, byte list) pk_env" where
  "example_pk_env =
     \<lparr>pk_registry = example_registry,
      writeDate = (\<lambda>d. d),
      serializeParams = (\<lambda>algo p. Inr p),
      Sha1_bytes = (\<lambda>bs. take 20 (rev bs @ replicate 20 0)),
      Sha256_bytes = (\<lambda>bs. take 32 (rev bs @ replicate 32 0)),
      uint8ArrayToHex = example_toHex,
      hexToUint8Array = example_fromHex\<rparr>"

definition example_key :: "nat \<Rightarrow> (byte list, byte list) PublicKeyPacket" where
  "example_key v =
     \<lparr>version = v, created = [0x4D, 0x3C, 0x5C, 0x10], algorithm = Some (Name ''ecdsa''),
      publicParams = [1, 2, 3, 4, 5, 6, 7, 8, 9, 10, 11, 12, 13, 14, 15, 16],
      expirationTimeV3 = 0, fingerprint = None, keyID = None\<rparr>"

section \<open>The packet list (\<open>src/packet/packetlist.js\<close>): \<open>write\<close>\<close>

text \<open>
  The helpers of \<open>./packet\<close>, which is not among the sources, are parameters: the
  header writers and the predicate \<open>supportsStreaming\<close> on tags.
\<close>

record packet_io =
  supportsStreaming :: "nat \<Rightarrow> bool"
  writeTag :: "nat \<Rightarrow> byte list"
  writeHeader :: "nat \<Rightarrow> nat \<Rightarrow> byte list"
  writePartialLength :: "nat \<Rightarrow> byte list"
  writeSimpleLength :: "nat \<Rightarrow> byte list"

text \<open>
  \<open>Math.log(n) / Math.LN2 | 0\<close> for a length \<open>n \<ge> 1\<close>: the integer part of the binary
  logarithm. The source computes it in floating point; the model takes the exact value.
\<close>

fun floor_log2 :: "nat \<Rightarrow> nat" where
  "floor_log2 n = (if n < 2 then 0 else Suc (floor_log2 (n div 2)))"

declare floor_log2.simps [simp del]

text \<open>
  What a packet's \<open>write()\<close> returns: a \<open>Uint8Array\<close>, or a stream. A stream is the
  list of the values that \<open>stream.transform\<close> hands to its callback, in order: the
  chunks of a web stream as they arrive; for an array stream, whose chunks the library
  joins first, the one joined value.
\<close>

datatype body = BodyBytes "byte list" | BodyStream "byte list list"

text \<open>
  The two variables the streaming branch of \<open>write\<close> closes over, and the two callbacks
  it hands to \<open>stream.transform\<close>: the first runs on every chunk of the body and may
  return a chunk to emit (\<open>None\<close> where the source returns \<open>undefined\<close>), the second runs
  when the body ends.
\<close>

record transform_state =
  buffer :: "byte list list"
  bufferLength :: nat

definition initial_state :: transform_state where
  "initial_state = \<lparr>buffer = [], bufferLength = 0\<rparr>"

definition minLength :: nat where
  "minLength = 512"

definition process_chunk ::
  "packet_io \<Rightarrow> transform_state \<Rightarrow> byte list \<Rightarrow> byte list option \<times> transform_state" where
  "process_chunk io st val =
     (let buf = buffer st @ [val];
          len = bufferLength st + length val
      in if len \<ge> minLength then
           (let powerOf2 = min (floor_log2 len) 30;
                chunkSize = 2 ^ powerOf2;
                bufferConcat = concat (writePartialLength io powerOf2 # buf);
                rest = subarray_from bufferConcat (1 + int chunkSize)
            in (Some (subarray bufferConcat 0 (1 + int chunkSize)),
                \<lparr>buffer = [rest], bufferLength = length rest\<rparr>))
         else (None, \<lparr>buffer = buf, bufferLength = len\<rparr>))"

definition finish_chunks :: "packet_io \<Rightarrow> transform_state \<Rightarrow> byte list" where
  "finish_chunks io st = concat (writeSimpleLength io (bufferLength st) # buffer st)"

text \<open>
  \<open>stream.transform(input, process, finish)\<close>: the chunks the output stream delivers,
  in order.
\<close>

fun transform_stream :: "packet_io \<Rightarrow> transform_state \<Rightarrow> byte list list \<Rightarrow> byte list list" where
  "transform_stream io st [] = [finish_chunks io st]"
| "transform_stream io st (v # vs) =
     (case process_chunk io st v of
        (None, st') \<Rightarrow> transform_stream io st' vs
      | (Some out, st') \<Rightarrow> out # transform_stream io st' vs)"

text \<open>
  One turn of the loop of \<open>write\<close>, for a packet with tag \<open>tag\<close> whose \<open>write()\<close> returned
  \<open>packetbytes\<close>: the chunks pushed to \<open>arr\<close>, streams flattened in the order
  \<open>util.concat\<close> reads them. A stream of a tag that does not support streaming is read
  twice: once to count it (the header comes out when it ends), once for the body.
\<close>

definition write_packet :: "packet_io \<Rightarrow> nat \<times> body \<Rightarrow> byte list list" where
  "write_packet io pkt =
     (case pkt of
        (tag, BodyStream chunks) \<Rightarrow>
          if supportsStreaming io tag then
            writeTag io tag # transform_stream io initial_state chunks
          else writeHeader io tag (length (concat chunks)) # chunks
      | (tag, BodyBytes packetbytes) \<Rightarrow>
          [writeHeader io tag (length packetbytes), packetbytes])"

definition PacketList_write :: "packet_io \<Rightarrow> (nat \<times> body) list \<Rightarrow> byte list list" where
  "PacketList_write io packets = concat (map (write_packet io) packets)"

text \<open>
  The framing as the specification words it, to be compared with what \<open>write\<close> does:
  accumulate until the buffer holds at least 512 octets, choose \<open>2 ^ p\<close> as the largest
  power of two that is at most the buffered length (capped at \<open>2 ^ 30\<close>), emit a
  partial-length header for \<open>p\<close> followed by \<open>2 ^ p\<close> octets, retain the remainder; when
  the stream ends, emit a simple-length header for the final residue.

  \<open>largest_exponent n q\<close> searches downwards from \<open>q\<close> for the largest exponent whose
  power of two is at most \<open>n\<close>. A segment records, besides its exponent and payload, how
  many chunks had arrived and how many octets were buffered when it was emitted.
\<close>

fun largest_exponent :: "nat \<Rightarrow> nat \<Rightarrow> nat" where
  "largest_exponent n 0 = 0"
| "largest_exponent n (Suc q) = (if 2 ^ Suc q \<le> n then Suc q else largest_exponent n q)"

record segment =
  seg_chunks :: nat
  seg_buffered :: nat
  seg_power :: nat
  seg_payload :: "byte list"

fun spec_segments :: "nat \<Rightarrow> byte list \<Rightarrow> byte list list \<Rightarrow> segment list" where
  "spec_segments k pending [] = []"
| "spec_segments k pending (c # cs) =
     (if 512 \<le> length (pending @ c) then
        \<lparr>seg_chunks = Suc k, seg_buffered = length (pending @ c),
         seg_power = largest_exponent (length (pending @ c)) 30,
         seg_payload = take (2 ^ largest_exponent (length (pending @ c)) 30) (pending @ c)\<rparr>
        # spec_segments (Suc k)
            (drop (2 ^ largest_exponent (length (pending @ c)) 30) (pending @ c)) cs
      else spec_segments (Suc k) (pending @ c) cs)"

fun spec_residue :: "byte list \<Rightarrow> byte list list \<Rightarrow> byte list" where
  "spec_residue pending [] = pending"
| "spec_residue pending (c # cs) =
     (if 512 \<le> length (pending @ c) then
        spec_residue (drop (2 ^ largest_exponent (length (pending @ c)) 30) (pending @ c)) cs
      else spec_residue (pending @ c) cs)"

text \<open>
  For the examples: the header writers of RFC 4880 (new format), with literal data
  (tag 11) as the streaming tag.
\<close>

definition example_simple_length :: "nat \<Rightarrow> byte list" where
  "example_simple_length n =
     (if n < 192 then [of_nat n]
      else if n < 8384 then [of_nat ((n - 192) div 256 + 192), of_nat (n - 192)]
      else 255 # writeNumber n 4)"

definition example_io :: packet_io where
  "example_io =
     \<lparr>supportsStreaming = (\<lambda>tag. tag = 11),
      writeTag = (\<lambda>tag. [of_nat (192 + tag)]),
      writeHeader = (\<lambda>tag n. of_nat (192 + tag) # example_simple_length n),
      writePartialLength = (\<lambda>p. [of_nat (224 + p)]),
      writeSimpleLength = example_simple_length\<rparr>"

section \<open>The packet list (\<open>src/packet/packetlist.js\<close>): \<open>read\<close>\<close>

text \<open>
  The one configuration option \<open>read\<close> looks at.
\<close>

record config =
  tolerant :: bool

text \<open>
  What \<open>read\<close> uses of code that is not among the sources, besides
  \<open>supportsStreaming\<close>: the error a disallowed tag raises (its message is built by the
  registry), and the error with which \<open>readPackets\<close> of \<open>./packet\<close> rejects an input
  that holds no packet at all.
\<close>

record reader_io = packet_io +
  not_allowed :: "nat \<Rightarrow> error"
  no_packets :: error

text \<open>
  \<open>allowedPackets\<close> maps a tag to a packet class. Of a class the reader uses the
  constructor and \<open>read(body, config)\<close>, which fills the new packet or throws: together
  a function from the body to an error or a packet. \<open>readPackets\<close> hands the callback
  one token at a time, a tag and a body; the input is the list of the tokens it will
  hand over.
\<close>

type_synonym 'pkt allowed_packets = "nat \<Rightarrow> (body \<Rightarrow> config \<Rightarrow> error + 'pkt) option"

definition newPacketFromTag ::
  "reader_io \<Rightarrow> nat \<Rightarrow> 'pkt allowed_packets \<Rightarrow> error + (body \<Rightarrow> config \<Rightarrow> error + 'pkt)" where
  "newPacketFromTag io tag allowedPackets =
     (case allowedPackets tag of
        None \<Rightarrow> Inl (not_allowed io tag)
      | Some cls \<Rightarrow> Inr cls)"

text \<open>
  The writable end of the list's stream: the packets written to it so far, each with the
  tag of its class, and the error it was aborted with, if it was. Aborting a stream that
  is already aborted changes nothing. With it goes the debug log: the errors handed to
  \<open>util.printDebugError\<close>, in order.
\<close>

record 'pkt out_stream =
  delivered :: "(nat \<times> 'pkt) list"
  failure :: "error option"
  logged :: "error list"

definition new_stream :: "'pkt out_stream" where
  "new_stream = \<lparr>delivered = [], failure = None, logged = []\<rparr>"

definition writer_write :: "'pkt out_stream \<Rightarrow> nat \<times> 'pkt \<Rightarrow> 'pkt out_stream" where
  "writer_write w p = w\<lparr>delivered := delivered w @ [p]\<rparr>"

definition writer_abort :: "'pkt out_stream \<Rightarrow> error \<Rightarrow> 'pkt out_stream" where
  "writer_abort w e = (case failure w of None \<Rightarrow> w\<lparr>failure := Some e\<rparr> | Some _ \<Rightarrow> w)"

definition printDebugError :: "'pkt out_stream \<Rightarrow> error \<Rightarrow> 'pkt out_stream" where
  "printDebugError w e = w\<lparr>logged := logged w @ [e]\<rparr>"

text \<open>
  The \<open>try\<close> block of the callback: make the packet for the tag and read the body into
  it. Either step may throw.
\<close>

definition parse_token ::
  "reader_io \<Rightarrow> 'pkt allowed_packets \<Rightarrow> config \<Rightarrow> nat \<times> body \<Rightarrow> error + nat \<times> 'pkt" where
  "parse_token io allowedPackets cfg parsed =
     (case newPacketFromTag io (fst parsed) allowedPackets of
        Inl e \<Rightarrow> Inl e
      | Inr cls \<Rightarrow>
          (case cls (snd parsed) cfg of
             Inl e \<Rightarrow> Inl e
           | Inr packet \<Rightarrow> Inr (fst parsed, packet)))"

text \<open>
  The callback given to \<open>readPackets\<close>: the packet is written to the stream; an error is
  caught, aborts the stream when the configuration is not tolerant or the tag supports
  streaming, and is logged in either case.
\<close>

definition on_parsed ::
  "reader_io \<Rightarrow> 'pkt allowed_packets \<Rightarrow> config \<Rightarrow> 'pkt out_stream \<Rightarrow> nat \<times> body
     \<Rightarrow> 'pkt out_stream" where
  "on_parsed io allowedPackets cfg w parsed =
     (case parse_token io allowedPackets cfg parsed of
        Inr packet \<Rightarrow> writer_write w packet
      | Inl e \<Rightarrow>
          printDebugError
            (if \<not> tolerant cfg \<or> supportsStreaming io (fst parsed) then writer_abort w e
             else w)
            e)"

text \<open>
  The \<open>while (true)\<close> loop: each turn first awaits \<open>writer.ready\<close>, which throws once
  the stream is aborted (the outer \<open>catch\<close> then aborts again, to no effect, and the
  loop is left), then lets \<open>readPackets\<close> handle one token; when the input is used up
  the stream is closed.
\<close>

fun read_loop ::
  "reader_io \<Rightarrow> 'pkt allowed_packets \<Rightarrow> config \<Rightarrow> 'pkt out_stream \<Rightarrow> (nat \<times> body) list
     \<Rightarrow> 'pkt out_stream" where
  "read_loop io allowedPackets cfg w [] = w"
| "read_loop io allowedPackets cfg w (parsed # rest) =
     (case failure w of
        Some e \<Rightarrow> w
      | None \<Rightarrow> read_loop io allowedPackets cfg (on_parsed io allowedPackets cfg w parsed) rest)"

text \<open>
  The function given to \<open>stream.transformPair\<close>: the loop on a new stream. On an input
  with no packet in it the first \<open>readPackets\<close> throws, and the outer \<open>catch\<close> aborts
  the stream with that error.
\<close>

definition read_stream ::
  "reader_io \<Rightarrow> 'pkt allowed_packets \<Rightarrow> config \<Rightarrow> (nat \<times> body) list \<Rightarrow> 'pkt out_stream" where
  "read_stream io allowedPackets cfg tokens =
     (if tokens = [] then writer_abort new_stream (no_packets io)
      else read_loop io allowedPackets cfg new_stream tokens)"

text \<open>
  The second loop of \<open>read\<close>: packets are taken from the stream and pushed to the list
  up to and including the first one whose tag supports streaming; the rest stays behind
  (\<open>Some\<close>); when the stream ends first, nothing stays behind (\<open>None\<close>, the source sets
  \<open>this.stream = null\<close>).
\<close>

fun drain :: "reader_io \<Rightarrow> (nat \<times> 'pkt) list \<Rightarrow> (nat \<times> 'pkt) list \<times> (nat \<times> 'pkt) list option" where
  "drain io [] = ([], None)"
| "drain io (p # ps) =
     (if supportsStreaming io (fst p) then ([p], Some ps)
      else (case drain io ps of (taken, rest) \<Rightarrow> (p # taken, rest)))"

text \<open>
  \<open>read(bytes, allowedPackets, config)\<close> for an input given as a \<open>Uint8Array\<close>, all of
  it there from the start: the first loop has run to its end before the second takes its
  first packet, so a stream that was aborted makes \<open>reader.read()\<close> throw at once, and
  \<open>read\<close> with it; otherwise the result is the list's packets and what stays behind in
  \<open>this.stream\<close>. With a stream as input, how far the second loop has come when an abort
  arrives depends on the timing of the two loops, which is not modelled.
\<close>

definition PacketList_read ::
  "reader_io \<Rightarrow> 'pkt allowed_packets \<Rightarrow> config \<Rightarrow> (nat \<times> body) list
     \<Rightarrow> error + (nat \<times> 'pkt) list \<times> (nat \<times> 'pkt) list option" where
  "PacketList_read io allowedPackets cfg tokens =
     (let w = read_stream io allowedPackets cfg tokens in
      case failure w of
        Some e \<Rightarrow> Inl e
      | None \<Rightarrow> Inr (drain io (delivered w)))"

text \<open>
  What a list of tokens parses to: the packets of the tokens that parse, in order, and
  the errors of those that do not.
\<close>

definition parsed_packets ::
  "reader_io \<Rightarrow> 'pkt allowed_packets \<Rightarrow> config \<Rightarrow> (nat \<times> body) list \<Rightarrow> (nat \<times> 'pkt) list" where
  "parsed_packets io allowedPackets cfg tokens =
     concat (map (\<lambda>t. case parse_token io allowedPackets cfg t of
                          Inl e \<Rightarrow> [] | Inr p \<Rightarrow> [p]) tokens)"

definition parse_errors ::
  "reader_io \<Rightarrow> 'pkt allowed_packets \<Rightarrow> config \<Rightarrow> (nat \<times> body) list \<Rightarrow> error list" where
  "parse_errors io (allowedPackets :: 'pkt allowed_packets) cfg tokens =
     concat (map (\<lambda>t. case parse_token io allowedPackets cfg t of
                          Inl e \<Rightarrow> [e] | Inr p \<Rightarrow> []) tokens)"

text \<open>
  For the examples: packets are their bodies; a body whose first octet is 0xFF does not
  parse (its MPI length is bad); tags 6 and 11 are allowed, and 11 supports streaming.
\<close>

definition example_class :: "body \<Rightarrow> config \<Rightarrow> error + byte list" where
  "example_class b cfg =
     (case b of
        BodyBytes bs \<Rightarrow>
          if take 1 bs = [0xFF] then Inl (new_Error ''Error reading MPIs'') else Inr bs
      | BodyStream cs \<Rightarrow> Inr (concat cs))"

definition example_allowed :: "(byte list) allowed_packets" where
  "example_allowed tag = (if tag = 6 \<or> tag = 11 then Some example_class else None)"

definition example_reader_io :: reader_io where
  "example_reader_io =
     \<lparr>supportsStreaming = (\<lambda>tag. tag = 11),
      writeTag = (\<lambda>tag. [of_nat (192 + tag)]),
      writeHeader = (\<lambda>tag n. of_nat (192 + tag) # example_simple_length n),
      writePartialLength = (\<lambda>p. [of_nat (224 + p)]),
      writeSimpleLength = example_simple_length,
      not_allowed = (\<lambda>tag. new_Error ''Packet not allowed in this context''),
      no_packets = new_Error ''Error during parsing''\<rparr>"

definition example_tokens :: "(nat \<times> body) list" where
  "example_tokens =
     [(6, BodyBytes [1]), (6, BodyBytes [0xFF, 0xFF]), (6, BodyBytes [2]),
      (6, BodyBytes [0xFF]), (6, BodyBytes [3])]"

section \<open>The Secret-Key packet (class \<open>SecretKeyPacket\<close>, in \<open>src/crypto/public_key/elliptic/ecdsa.js\<close>)\<close>

text \<open>
  \<open>clearPrivateParams\<close> writes into typed arrays that other holders may still see, so
  typed arrays live in a store: a list of buffers, a buffer's address being its index. A
  \<open>Uint8Array\<close> object is a view: a buffer, an offset and a length. \<open>load\<close> reads a
  view, \<open>fill\<close> is \<open>view.fill(x)\<close>, \<open>alloc\<close> makes a new array from octets.
\<close>

type_synonym heap = "byte list list"

record view =
  v_buf :: nat
  v_off :: nat
  v_len :: nat

definition load :: "heap \<Rightarrow> view \<Rightarrow> byte list" where
  "load h v = (if v_buf v < length h then take (v_len v) (drop (v_off v) (h ! v_buf v)) else [])"

definition fill :: "heap \<Rightarrow> view \<Rightarrow> byte \<Rightarrow> heap" where
  "fill h v x =
     (if v_buf v < length h then
        h[v_buf v :=
            take (v_off v) (h ! v_buf v)
            @ replicate (min (v_len v) (length (h ! v_buf v) - v_off v)) x
            @ drop (v_off v + v_len v) (h ! v_buf v)]
      else h)"

definition alloc :: "heap \<Rightarrow> byte list \<Rightarrow> view \<times> heap" where
  "alloc h bs = (\<lparr>v_buf = length h, v_off = 0, v_len = length bs\<rparr>, h @ [bs])"

fun alloc_params :: "heap \<Rightarrow> (string \<times> byte list) list \<Rightarrow> (string \<times> view) list \<times> heap" where
  "alloc_params h [] = ([], h)"
| "alloc_params h (nb # rest) =
     (case alloc h (snd nb) of
        (v, h1) \<Rightarrow> (case alloc_params h1 rest of (vs, h2) \<Rightarrow> ((fst nb, v) # vs, h2)))"

text \<open>A view that lies in the store, and a view that lies within another one.\<close>

definition valid_view :: "heap \<Rightarrow> view \<Rightarrow> bool" where
  "valid_view h v = (v_buf v < length h \<and> v_off v + v_len v \<le> length (h ! v_buf v))"

definition within :: "view \<Rightarrow> view \<Rightarrow> bool" where
  "within w v =
     (v_buf w = v_buf v \<and> v_off v \<le> v_off w \<and> v_off w + v_len w \<le> v_off v + v_len v)"

text \<open>
  Modelled from the spec: the S2K specifier \<open>src/type/s2k\<close>, which is not among the
  sources: a specifier of type simple, salted, iterated-salted or gnu-dummy, with its
  hash algorithm, coded count and salt.
\<close>

record S2K =
  s2k_type :: string
  s2k_algorithm :: nat
  s2k_c :: nat
  s2k_salt :: "byte list"

text \<open>
  The packet: the fields of the public-key packet and the secret ones. \<open>keyMaterial\<close>,
  \<open>iv\<close> and the private parameters are typed arrays, held by reference; the private
  parameters are an object from names to arrays, kept in the order of its keys.
\<close>

record ('d, 'p) SecretKeyPacket = "('d, 'p) PublicKeyPacket" +
  keyMaterial :: "view option"
  isEncrypted :: "bool option"
  s2kUsage :: nat
  s2k :: "S2K option"
  symmetric :: "enum_val option"
  aead :: "enum_val option"
  privateParams :: "(string \<times> view) list option"
  iv :: "view option"

text \<open>
  The collaborators, none among the sources: \<open>crypto.cipher[algo].keySize\<close>,
  \<open>s2k.produceKey\<close> and \<open>s2k.write\<close>, the AEAD mode (\<open>crypto.mode[aead]\<close>: its
  \<open>ivLength\<close> and the \<open>decrypt\<close> of an instance), \<open>crypto.mode.cfb.decrypt\<close>,
  \<open>crypto.hash.sha1\<close>, \<open>crypto.parsePrivateKeyParams\<close>, and \<open>crypto.serializeParams\<close> on
  private parameters. A lookup that finds nothing gives \<open>undefined\<close> (\<open>None\<close>).
\<close>

record ('d, 'p) sk_env = "('d, 'p) pk_env" +
  cipher_keySize :: "enum_val option \<Rightarrow> nat option"
  produceKey :: "S2K \<Rightarrow> string \<Rightarrow> nat \<Rightarrow> error + byte list"
  s2k_write :: "S2K \<Rightarrow> byte list"
  aead_ivLength :: "enum_val option \<Rightarrow> nat option"
  aead_decrypt ::
    "enum_val option \<Rightarrow> enum_val option \<Rightarrow> byte list \<Rightarrow> byte list \<Rightarrow> byte list \<Rightarrow> byte list
       \<Rightarrow> error + byte list"
  cfb_decrypt ::
    "enum_val option \<Rightarrow> byte list \<Rightarrow> byte list \<Rightarrow> byte list \<Rightarrow> error + byte list"
  hash_sha1 :: "byte list \<Rightarrow> byte list"
  parsePrivateKeyParams :: "nat \<Rightarrow> byte list \<Rightarrow> 'p \<Rightarrow> error + (string \<times> byte list) list"
  serializePrivateParams :: "nat \<Rightarrow> (string \<times> byte list) list option \<Rightarrow> error + byte list"

definition TypeError :: error where
  "TypeError = Error ''TypeError'' ''Cannot read properties of null''"

text \<open>
  Modelled from the spec: \<open>util.writeChecksum\<close> of \<open>src/util\<close>, which is not among the
  sources: the two-octet sum of the octets modulo 65536.
\<close>

definition writeChecksum :: "byte list \<Rightarrow> byte list" where
  "writeChecksum bs = writeNumber (sum_list (map unat bs) mod 65536) 2"

definition isDecrypted :: "('d, 'p, 'z) SecretKeyPacket_scheme \<Rightarrow> bool" where
  "isDecrypted this = (isEncrypted this = Some False)"

definition isDummy :: "('d, 'p, 'z) SecretKeyPacket_scheme \<Rightarrow> bool" where
  "isDummy this = (case s2k this of None \<Rightarrow> False | Some s \<Rightarrow> s2k_type s = ''gnu-dummy'')"

definition produceEncryptionKey ::
  "('d, 'p, 'y) sk_env_scheme \<Rightarrow> S2K option \<Rightarrow> string \<Rightarrow> enum_val option \<Rightarrow> error + byte list" where
  "produceEncryptionKey env s passphrase algo =
     (case s of
        None \<Rightarrow> Inl TypeError
      | Some spec \<Rightarrow>
          (case cipher_keySize env algo of
             None \<Rightarrow> Inl TypeError
           | Some keySize \<Rightarrow> produceKey env spec passphrase keySize))"

text \<open>
  \<open>decrypt(passphrase)\<close>, in three steps as in the source. First the key: derived
  from the S2K specifier for usage 254 and 253, refused for the others.
\<close>

definition decrypt_key ::
  "('d, 'p, 'y) sk_env_scheme \<Rightarrow> ('d, 'p, 'z) SecretKeyPacket_scheme \<Rightarrow> string
     \<Rightarrow> error + byte list" where
  "decrypt_key env this passphrase =
     (if s2kUsage this = 254 \<or> s2kUsage this = 253 then
        produceEncryptionKey env (s2k this) passphrase (symmetric this)
      else if s2kUsage this = 255 then
        Inl (new_Error
               ''Encrypted private key is authenticated using an insecure two-byte hash'')
      else
        Inl (new_Error
               ''Private key is encrypted using an insecure S2K function: unsalted MD5''))"

text \<open>
  Then the cleartext. For usage 253 the AEAD mode decrypts; an error whose message is
  \<open>Authentication tag mismatch\<close> is rethrown as an incorrect passphrase, any other as
  it is. Otherwise CFB decrypts, and the last 20 octets must be the SHA-1 of the rest.
  A \<open>keyMaterial\<close> or \<open>iv\<close> that is \<open>null\<close> or \<open>undefined\<close> makes the access throw.
\<close>

definition decrypt_cleartext ::
  "('d, 'p, 'y) sk_env_scheme \<Rightarrow> heap \<Rightarrow> ('d, 'p, 'z) SecretKeyPacket_scheme \<Rightarrow> byte list
     \<Rightarrow> error + byte list" where
  "decrypt_cleartext env h this key =
     (case (keyMaterial this, iv this) of
        (Some km, Some ivv) \<Rightarrow>
          if s2kUsage this = 253 then
            (case aead_ivLength env (aead this) of
               None \<Rightarrow> Inl TypeError
             | Some ivLength \<Rightarrow>
                 (case aead_decrypt env (aead this) (symmetric this) key (load h km)
                         (subarray (load h ivv) 0 (int ivLength)) [] of
                    Inl err \<Rightarrow>
                      if err_message err = ''Authentication tag mismatch'' then
                        Inl (new_Error (''Incorrect key passphrase: '' @ err_message err))
                      else Inl err
                  | Inr cleartext \<Rightarrow> Inr cleartext))
          else
            (case cfb_decrypt env (symmetric this) key (load h km) (load h ivv) of
               Inl err \<Rightarrow> Inl err
             | Inr cleartextWithHash \<Rightarrow>
                 (let cleartext = subarray cleartextWithHash 0 (- 20);
                      hash = hash_sha1 env cleartext
                  in if hash \<noteq> subarray_from cleartextWithHash (- 20) then
                       Inl (new_Error ''Incorrect key passphrase'')
                     else Inr cleartext))
      | _ \<Rightarrow> Inl TypeError)"

text \<open>
  Last the parameters are parsed, and only then is the packet changed. The result is
  what the method returns (\<open>false\<close> for a dummy key, nothing otherwise) or the error
  it throws, with the packet and the store as the call leaves them.
\<close>

definition decrypt ::
  "('d, 'p, 'y) sk_env_scheme \<Rightarrow> heap \<Rightarrow> ('d, 'p, 'z) SecretKeyPacket_scheme \<Rightarrow> string
     \<Rightarrow> (error + bool option) \<times> ('d, 'p, 'z) SecretKeyPacket_scheme \<times> heap" where
  "decrypt env h this passphrase =
     (if isDummy this then (Inr (Some False), this, h)
      else if isDecrypted this then
        (Inl (new_Error ''Key packet is already decrypted.''), this, h)
      else
        (case decrypt_key env this passphrase of
           Inl err \<Rightarrow> (Inl err, this, h)
         | Inr key \<Rightarrow>
        (case decrypt_cleartext env h this key of
           Inl err \<Rightarrow> (Inl err, this, h)
         | Inr cleartext \<Rightarrow>
        (case enums_write (pk_registry env) E_publicKey (algorithm this) of
           Inl err \<Rightarrow> (Inl (new_Error ''Error reading MPIs''), this, h)
         | Inr algo \<Rightarrow>
        (case parsePrivateKeyParams env algo cleartext (publicParams this) of
           Inl err \<Rightarrow> (Inl (new_Error ''Error reading MPIs''), this, h)
         | Inr params \<Rightarrow>
             (case alloc_params h params of
                (refs, h') \<Rightarrow>
                  (Inr None,
                   this\<lparr>privateParams := Some refs, isEncrypted := Some False,
                        keyMaterial := None, s2kUsage := 0\<rparr>,
                   h')))))))"

text \<open>
  \<open>clearPrivateParams()\<close>: nothing for a dummy key; otherwise every parameter array is
  filled with zeros, the parameters are dropped and the packet is marked encrypted. No
  other field is assigned. \<open>Object.keys(null)\<close> throws.
\<close>

definition clearPrivateParams ::
  "heap \<Rightarrow> ('d, 'p, 'z) SecretKeyPacket_scheme
     \<Rightarrow> (error + unit) \<times> ('d, 'p, 'z) SecretKeyPacket_scheme \<times> heap" where
  "clearPrivateParams h this =
     (if isDummy this then (Inr (), this, h)
      else
        (case privateParams this of
           None \<Rightarrow> (Inl TypeError, this, h)
         | Some params \<Rightarrow>
             (Inr (),
              this\<lparr>privateParams := None, isEncrypted := Some True\<rparr>,
              foldl (\<lambda>h' param. fill h' (snd param) 0) h params)))"

text \<open>
  \<open>write()\<close> of the secret-key packet. The optional fields first: the symmetric
  algorithm, the AEAD algorithm and the S2K specifier for usage 255, 254 and 253, then
  the IV when the usage is not zero and the key is not a dummy.
\<close>

definition optionalFields ::
  "('d, 'p, 'y) sk_env_scheme \<Rightarrow> heap \<Rightarrow> ('d, 'p, 'z) SecretKeyPacket_scheme
     \<Rightarrow> error + byte list" where
  "optionalFields env h this =
     (case
        (if s2kUsage this = 255 \<or> s2kUsage this = 254 \<or> s2kUsage this = 253 then
           (case enums_write (pk_registry env) E_symmetric (symmetric this) of
              Inl err \<Rightarrow> Inl err
            | Inr sy \<Rightarrow>
           (case (if s2kUsage this = 253
                  then map_sum id (\<lambda>a. [of_nat a])
                         (enums_write (pk_registry env) E_aead (aead this))
                  else Inr []) of
              Inl err \<Rightarrow> Inl err
            | Inr ae \<Rightarrow>
           (case s2k this of
              None \<Rightarrow> Inl TypeError
            | Some spec \<Rightarrow> Inr ([of_nat sy] @ ae @ s2k_write env spec))))
         else Inr []) of
        Inl err \<Rightarrow> Inl err
      | Inr optional \<Rightarrow>
          if s2kUsage this \<noteq> 0 then
            (case s2k this of
               None \<Rightarrow> Inl TypeError
             | Some spec \<Rightarrow>
                 if s2k_type spec \<noteq> ''gnu-dummy'' then
                   (case iv this of
                      None \<Rightarrow> Inl TypeError
                    | Some ivv \<Rightarrow> Inr (optional @ load h ivv))
                 else Inr optional)
          else Inr optional)"

text \<open>
  Then the key material. For an unprotected key (usage zero) it is serialized anew from
  the private parameters at this point and stored in \<open>this.keyMaterial\<close>, a new array,
  and the checksum follows it.
\<close>

definition sk_write ::
  "('d, 'p, 'y) sk_env_scheme \<Rightarrow> heap \<Rightarrow> ('d, 'p, 'z) SecretKeyPacket_scheme
     \<Rightarrow> (error + byte list) \<times> ('d, 'p, 'z) SecretKeyPacket_scheme \<times> heap" where
  "sk_write env h this =
     (case writePublicKey env this of
        Inl err \<Rightarrow> (Inl err, this, h)
      | Inr pub \<Rightarrow>
     (case optionalFields env h this of
        Inl err \<Rightarrow> (Inl err, this, h)
      | Inr optional \<Rightarrow>
          (let arr = pub @ [of_nat (s2kUsage this)]
                 @ (if version this = 5 then [of_nat (length optional)] else [])
                 @ optional
           in if \<not> isDummy this then
                (case
                   (if s2kUsage this = 0 then
                      (case enums_write (pk_registry env) E_publicKey (algorithm this) of
                         Inl err \<Rightarrow> Inl err
                       | Inr algo \<Rightarrow>
                           (case serializePrivateParams env algo
                                   (map_option (map (\<lambda>param. (fst param, load h (snd param))))
                                      (privateParams this)) of
                              Inl err \<Rightarrow> Inl err
                            | Inr bytes \<Rightarrow>
                                (case alloc h bytes of
                                   (km, h') \<Rightarrow> Inr (this\<lparr>keyMaterial := Some km\<rparr>, h'))))
                    else Inr (this, h)) of
                   Inl err \<Rightarrow> (Inl err, this, h)
                 | Inr (this', h') \<Rightarrow>
                     (case keyMaterial this' of
                        None \<Rightarrow> (Inl TypeError, this', h')
                      | Some km \<Rightarrow>
                          (Inr (arr
                                @ (if version this' = 5
                                   then writeNumber (length (load h' km)) 4 else [])
                                @ load h' km
                                @ (if s2kUsage this' = 0
                                   then writeChecksum (load h' km) else [])),
                           this', h')))
              else (Inr arr, this, h))))"

text \<open>
  An environment for the examples, on top of the public-key one. The ciphers are
  stand-ins that can be run: the derived key repeats the passphrase's length; the AEAD
  mode puts the key's first octet in front as the tag; CFB adds the key's first octet to
  every octet; the digest is twenty times the sum of the octets.
\<close>

definition key_octet :: "byte list \<Rightarrow> byte" where
  "key_octet key = (case key of [] \<Rightarrow> 0 | k # _ \<Rightarrow> k)"

definition example_sk_env :: "(byte list, byte list) sk_env" where
  "example_sk_env =
     \<lparr>pk_registry = example_registry,
      writeDate = (\<lambda>d. d),
      serializeParams = (\<lambda>algo p. Inr p),
      Sha1_bytes = (\<lambda>bs. take 20 (rev bs @ replicate 20 0)),
      Sha256_bytes = (\<lambda>bs. take 32 (rev bs @ replicate 32 0)),
      uint8ArrayToHex = example_toHex,
      hexToUint8Array = example_fromHex,
      cipher_keySize = (\<lambda>a. if a = Some (Name ''aes256'') then Some 32 else None),
      produceKey = (\<lambda>s passphrase n. Inr (replicate n (of_nat (length passphrase)))),
      s2k_write = (\<lambda>s. [3, of_nat (s2k_algorithm s)] @ s2k_salt s @ [of_nat (s2k_c s)]),
      aead_ivLength = (\<lambda>a. if a = Some (Name ''eax'') then Some 16 else None),
      aead_decrypt = (\<lambda>a s key ct nonce ad.
         if take 1 ct = [key_octet key] then Inr (drop 1 ct)
         else Inl (Error ''Error'' ''Authentication tag mismatch'')),
      cfb_decrypt = (\<lambda>s key ct nonce. Inr (map (\<lambda>b. b - key_octet key) ct)),
      hash_sha1 = (\<lambda>bs. replicate 20 (sum_list bs)),
      parsePrivateKeyParams = (\<lambda>algo bs pub. Inr [(''d'', bs)]),
      serializePrivateParams = (\<lambda>algo ps.
         case ps of None \<Rightarrow> Inl TypeError | Some l \<Rightarrow> Inr (concat (map snd l)))\<rparr>"

definition example_s2k :: S2K where
  "example_s2k =
     \<lparr>s2k_type = ''iterated'', s2k_algorithm = 8,
      s2k_c = 96, s2k_salt = [65, 66, 67, 68, 69, 70, 71, 72]\<rparr>"

text \<open>
  A protected key: the secret octets AA BB CC under the passphrase \<open>hunter2\<close>, with
  \<open>keyMaterial\<close> in buffer 0 and the IV in buffer 1; \<open>usage\<close> is 253 or 254.
\<close>

definition example_protected :: "nat \<Rightarrow> (byte list, byte list) SecretKeyPacket" where
  "example_protected usage =
     \<lparr>version = 4, created = [0x4D, 0x3C, 0x5C, 0x10], algorithm = Some (Name ''ecdsa''),
      publicParams = [1, 2, 3, 4], expirationTimeV3 = 0, fingerprint = None, keyID = None,
      keyMaterial = Some \<lparr>v_buf = 0, v_off = 0, v_len = (if usage = 253 then 4 else 23)\<rparr>,
      isEncrypted = Some True, s2kUsage = usage, s2k = Some example_s2k,
      symmetric = Some (Name ''aes256''),
      aead = (if usage = 253 then Some (Name ''eax'') else None),
      privateParams = None,
      iv = Some \<lparr>v_buf = 1, v_off = 0, v_len = 16\<rparr>\<rparr>"

definition example_heap :: "nat \<Rightarrow> heap" where
  "example_heap usage =
     [if usage = 253 then [7, 0xAA, 0xBB, 0xCC]
      else map (\<lambda>b. b + 7) ([0xAA, 0xBB, 0xCC] @ replicate 20 0x31),
      replicate 16 0]"

text \<open>
  A decrypted, unprotected key: the secret octets AA BB CC are the parameter \<open>d\<close>, a
  view of three octets into buffer 0.
\<close>

definition example_decrypted :: "(byte list, byte list) SecretKeyPacket" where
  "example_decrypted =
     \<lparr>version = 4, created = [0x4D, 0x3C, 0x5C, 0x10], algorithm = Some (Name ''ecdsa''),
      publicParams = [1, 2, 3, 4], expirationTimeV3 = 0, fingerprint = None, keyID = None,
      keyMaterial = None, isEncrypted = Some False, s2kUsage = 0, s2k = None,
      symmetric = None, aead = None,
      privateParams = Some [(''d'', \<lparr>v_buf = 0, v_off = 1, v_len = 3\<rparr>)],
      iv = None\<rparr>"

definition example_decrypted_heap :: heap where
  "example_decrypted_heap = [[0, 0xAA, 0xBB, 0xCC, 0]]"

text \<open>
  The decrypted example key after \<open>write()\<close>, and then after \<open>clearPrivateParams()\<close>:
  each is the result, the packet and the store.
\<close>

definition example_written ::
  "(error + byte list) \<times> (byte list, byte list) SecretKeyPacket \<times> heap" where
  "example_written = sk_write example_sk_env example_decrypted_heap example_decrypted"

definition example_cleared ::
  "(error + unit) \<times> (byte list, byte list) SecretKeyPacket \<times> heap" where
  "example_cleared =
     clearPrivateParams (snd (snd example_written)) (fst (snd example_written))"

section \<open>Theorems: One-Pass Signature packet\<close>

lemma subarray_0_8_of_8: "length bs = 8 \<Longrightarrow> subarray bs 0 8 = bs"
  by (simp add: subarray_def clamp_index_def)

text \<open>
  \<open>read\<close> has no failing branch: for every body it returns a packet, and the packet's
  version is the first octet of the body as it stands (\<open>undefined\<close> for an empty body).
\<close>

lemma ops_read_never_fails:
  "ops_read this bytes \<noteq> Inl err \<and>
   map_sum id ops_version (ops_read this bytes) = Inr (at_index bytes 0)"
  by (simp add: ops_read_def)

text \<open>
  C8. \<open>read\<close> should fail with UnsupportedVersion for every body whose first octet is
  not 3: the class comment says the current version is 3, \<open>write\<close> emits the constant
  3, and the key packet's \<open>read\<close> rejects the versions it does not support. The check is
  missing here: the thirteen-octet body that starts with 4 is read without an error, and
  the packet holds version 4.
\<close>

theorem ops_read_version_4_accepted:
  "ops_read new_OnePassSignaturePacket (example_ops_body 4) =
     Inr \<lparr>ops_version = Some 4, signatureType = Some (Code 0), hashAlgorithm = Some (Code 8),
          publicKeyAlgorithm = Some (Code 19),
          issuerKeyID = Some \<lparr>keyid_bytes = [1, 2, 3, 4, 5, 6, 7, 8]\<rparr>, flags = Some 1\<rparr>"
  by (simp add: ops_read_def new_OnePassSignaturePacket_def example_ops_body_def
      at_index_def KeyID_read_def subarray_def clamp_index_def)




section \<open>Theorems: ECDSA signing\<close>

text \<open>
  C9. When the message of a sign request is a stream, the result is the software tier's
  signature of the pre-computed digest, for every curve the constructor returns, and the
  platform signers have no part in it: replacing them changes nothing.
\<close>

theorem sign_stream_uses_software_tier:
  assumes "new_Curve env oid = Inr c"
  shows "sign env oid hashAlgo (Stream chunks) publicKey privateKey hashed =
           ellipticSign env c hashed privateKey \<and>
         sign (env\<lparr>webSign := w, nodeSign := n\<rparr>) oid hashAlgo (Stream chunks) publicKey
              privateKey hashed =
           sign env oid hashAlgo (Stream chunks) publicKey privateKey hashed"
  using assms by (simp add: sign_def isStream_def truthy_def)

theorem sign_stream_uses_software_tier_witness:
  "sign example_ecdsa_env [42] 8 (Stream [[1, 2], [3]]) [4] [5] [9, 9] =
     Inr \<lparr>sig_r = [9, 9], sig_s = [5]\<rparr>"
proof -
  have c: "new_Curve example_ecdsa_env [42] =
             Inr \<lparr>curve_oid = [42], curve_name = ''p256'', curve_tier = Web\<rparr>"
    by (simp add: example_ecdsa_env_def)
  show ?thesis
    using sign_stream_uses_software_tier [OF c, of 8 "[[1, 2], [3]]" "[4]" "[5]" "[9, 9]"]
    by (simp add: example_ecdsa_env_def)
qed

section \<open>Theorems: Public-Key packet\<close>

lemma writeNumber_2: "writeNumber n 2 = [of_nat (n div 256), of_nat n]"
proof -
  have "[0..<2] = [0, Suc 0]" by (simp add: upt_rec)
  then show ?thesis by (simp add: writeNumber_def)
qed

lemma writeNumber_4:
  "writeNumber n 4 = [of_nat (n div 2 ^ 24), of_nat (n div 2 ^ 16), of_nat (n div 256), of_nat n]"
proof -
  have "[0..<4] = [0, 1, 2, 3]" by (simp add: upt_rec)
  then show ?thesis by (simp add: writeNumber_def)
qed

lemma writeForHash_4:
  "writePublicKey env p = Inr bytes \<Longrightarrow>
   writeForHash env p 4 =
     Inr ([0x99, of_nat (length bytes div 256), of_nat (length bytes)] @ bytes)"
  by (simp add: writeForHash_def writeNumber_2)

lemma writeForHash_5:
  "writePublicKey env p = Inr bytes \<Longrightarrow>
   writeForHash env p 5 =
     Inr ([0x9A, of_nat (length bytes div 2 ^ 24), of_nat (length bytes div 2 ^ 16),
           of_nat (length bytes div 256), of_nat (length bytes)] @ bytes)"
  by (simp add: writeForHash_def writeNumber_4)

lemma getFingerprintBytes_cached:
  "fingerprint p = Some fp \<Longrightarrow> getFingerprintBytes env p = (Inr (Some fp), p)"
  by (simp add: getFingerprintBytes_def)

lemma getFingerprintBytes_v4:
  "fingerprint p = None \<Longrightarrow> writePublicKey env p = Inr bytes \<Longrightarrow> version p = 4 \<Longrightarrow>
   getFingerprintBytes env p =
     (Inr (Some (Sha1_bytes env
        ([0x99, of_nat (length bytes div 256), of_nat (length bytes)] @ bytes))),
      p\<lparr>fingerprint := Some (Sha1_bytes env
        ([0x99, of_nat (length bytes div 256), of_nat (length bytes)] @ bytes))\<rparr>)"
  by (simp add: getFingerprintBytes_def writeForHash_4)

lemma getFingerprintBytes_v5:
  "fingerprint p = None \<Longrightarrow> writePublicKey env p = Inr bytes \<Longrightarrow> version p = 5 \<Longrightarrow>
   getFingerprintBytes env p =
     (Inr (Some (Sha256_bytes env
        ([0x9A, of_nat (length bytes div 2 ^ 24), of_nat (length bytes div 2 ^ 16),
          of_nat (length bytes div 256), of_nat (length bytes)] @ bytes))),
      p\<lparr>fingerprint := Some (Sha256_bytes env
        ([0x9A, of_nat (length bytes div 2 ^ 24), of_nat (length bytes div 2 ^ 16),
          of_nat (length bytes div 256), of_nat (length bytes)] @ bytes))\<rparr>)"
  by (simp add: getFingerprintBytes_def writeForHash_5)

text \<open>
  C1. For a packet whose fields are set (\<open>write()\<close> returns \<open>bytes\<close>) and whose
  fingerprint has not been asked for yet, \<open>getFingerprintBytes()\<close> returns, for version
  4, SHA-1 of \<open>0x99\<close>, the length of \<open>bytes\<close> on two octets (big-endian) and \<open>bytes\<close>,
  and for version 5, SHA-256 of \<open>0x9A\<close>, the length on four octets and \<open>bytes\<close>. The
  value is stored in the packet, and asking again returns it and changes nothing.
\<close>

theorem getFingerprintBytes_hash:
  assumes "fingerprint p = None"
    and "writePublicKey env p = Inr bytes"
  shows "(version p = 4 \<longrightarrow>
            getFingerprintBytes env p =
              (Inr (Some (Sha1_bytes env
                 ([0x99, of_nat (length bytes div 256), of_nat (length bytes)] @ bytes))),
               p\<lparr>fingerprint := Some (Sha1_bytes env
                 ([0x99, of_nat (length bytes div 256), of_nat (length bytes)] @ bytes))\<rparr>)) \<and>
         (version p = 5 \<longrightarrow>
            getFingerprintBytes env p =
              (Inr (Some (Sha256_bytes env
                 ([0x9A, of_nat (length bytes div 2 ^ 24), of_nat (length bytes div 2 ^ 16),
                   of_nat (length bytes div 256), of_nat (length bytes)] @ bytes))),
               p\<lparr>fingerprint := Some (Sha256_bytes env
                 ([0x9A, of_nat (length bytes div 2 ^ 24), of_nat (length bytes div 2 ^ 16),
                   of_nat (length bytes div 256), of_nat (length bytes)] @ bytes))\<rparr>)) \<and>
         (version p = 4 \<or> version p = 5 \<longrightarrow>
            getFingerprintBytes env (snd (getFingerprintBytes env p)) =
              (fst (getFingerprintBytes env p), snd (getFingerprintBytes env p)))"
proof (intro conjI impI)
  assume v: "version p = 4"
  show "getFingerprintBytes env p =
          (Inr (Some (Sha1_bytes env
             ([0x99, of_nat (length bytes div 256), of_nat (length bytes)] @ bytes))),
           p\<lparr>fingerprint := Some (Sha1_bytes env
             ([0x99, of_nat (length bytes div 256), of_nat (length bytes)] @ bytes))\<rparr>)"
    using getFingerprintBytes_v4 [OF assms v] .
next
  assume v: "version p = 5"
  show "getFingerprintBytes env p =
          (Inr (Some (Sha256_bytes env
             ([0x9A, of_nat (length bytes div 2 ^ 24), of_nat (length bytes div 2 ^ 16),
               of_nat (length bytes div 256), of_nat (length bytes)] @ bytes))),
           p\<lparr>fingerprint := Some (Sha256_bytes env
             ([0x9A, of_nat (length bytes div 2 ^ 24), of_nat (length bytes div 2 ^ 16),
               of_nat (length bytes div 256), of_nat (length bytes)] @ bytes))\<rparr>)"
    using getFingerprintBytes_v5 [OF assms v] .
next
  assume "version p = 4 \<or> version p = 5"
  then show "getFingerprintBytes env (snd (getFingerprintBytes env p)) =
               (fst (getFingerprintBytes env p), snd (getFingerprintBytes env p))"
  proof
    assume v: "version p = 4"
    show ?thesis
      by (simp add: getFingerprintBytes_v4 [OF assms v] getFingerprintBytes_cached)
  next
    assume v: "version p = 5"
    show ?thesis
      by (simp add: getFingerprintBytes_v5 [OF assms v] getFingerprintBytes_cached)
  qed
qed

lemma example_write_4:
  "writePublicKey example_pk_env (example_key 4) =
     Inr [4, 0x4D, 0x3C, 0x5C, 0x10, 19, 1, 2, 3, 4, 5, 6, 7, 8, 9, 10, 11, 12, 13, 14, 15, 16]"
  by (simp add: writePublicKey_def example_pk_env_def example_key_def enums_write_def
      enums_write_name_def example_registry_def)

lemma example_write_5:
  "writePublicKey example_pk_env (example_key 5) =
     Inr [5, 0x4D, 0x3C, 0x5C, 0x10, 19, 0, 0, 0, 16,
          1, 2, 3, 4, 5, 6, 7, 8, 9, 10, 11, 12, 13, 14, 15, 16]"
  by (simp add: writePublicKey_def example_pk_env_def example_key_def enums_write_def
      enums_write_name_def example_registry_def writeNumber_4)

theorem getFingerprintBytes_hash_witness:
  "fst (getFingerprintBytes example_pk_env (example_key 4)) =
     Inr (Some [16, 15, 14, 13, 12, 11, 10, 9, 8, 7, 6, 5, 4, 3, 2, 1, 19, 0x10, 0x5C, 0x3C]) \<and>
   fst (getFingerprintBytes example_pk_env (example_key 5)) =
     Inr (Some [16, 15, 14, 13, 12, 11, 10, 9, 8, 7, 6, 5, 4, 3, 2, 1, 16, 0, 0, 0,
                19, 0x10, 0x5C, 0x3C, 0x4D, 5, 26, 0, 0, 0, 0x9A, 0])"
proof -
  have n4: "fingerprint (example_key 4) = None" and n5: "fingerprint (example_key 5) = None"
    by (simp_all add: example_key_def)
  have v4: "version (example_key 4) = 4" and v5: "version (example_key 5) = 5"
    by (simp_all add: example_key_def)
  show ?thesis
    using getFingerprintBytes_hash [OF n4 example_write_4]
      getFingerprintBytes_hash [OF n5 example_write_5] v4 v5
    by (simp add: example_pk_env_def)
qed


lemma writePublicKey_keyID_update:
  "writePublicKey env (p\<lparr>keyID := k\<rparr>) = writePublicKey env p"
  by (simp add: writePublicKey_def split: sum.splits)

lemma getFingerprintBytes_keyID_update:
  "getFingerprintBytes env (p\<lparr>keyID := k\<rparr>) =
     (fst (getFingerprintBytes env p), (snd (getFingerprintBytes env p))\<lparr>keyID := k\<rparr>)"
  by (simp add: getFingerprintBytes_def writeForHash_def writePublicKey_keyID_update
      split: option.splits sum.splits)

lemma subarray_12_20: "subarray fp 12 20 = take 8 (drop 12 fp)"
  by (simp add: subarray_def clamp_index_def min_def)

lemma subarray_0_8: "subarray fp 0 8 = take 8 fp"
  by (simp add: subarray_def clamp_index_def min_def)

lemma getFingerprint_keyID_update:
  assumes "fst (getFingerprintBytes env p) = Inr (Some fp)"
  shows "fst (getFingerprint env (p\<lparr>keyID := k\<rparr>)) = Inr (uint8ArrayToHex env fp)"
  using assms by (simp add: getFingerprint_def getFingerprintBytes_keyID_update)

lemma getKeyID_cached: "keyID q = Some k \<Longrightarrow> getKeyID env q = (Inr k, q)"
  by (simp add: getKeyID_def)

lemma getKeyID_first_call:
  assumes "keyID p = None"
    and "fst (getFingerprintBytes env p) = Inr (Some fp)"
    and "hexToUint8Array env (uint8ArrayToHex env fp) = fp"
    and "version p = 4 \<or> version p = 5"
  shows "getKeyID env p =
           (Inr \<lparr>keyid_bytes = (if version p = 4 then take 8 (drop 12 fp) else take 8 fp)\<rparr>,
            (snd (getFingerprintBytes env p))
              \<lparr>keyID := Some \<lparr>keyid_bytes =
                  (if version p = 4 then take 8 (drop 12 fp) else take 8 fp)\<rparr>\<rparr>)"
proof -
  have fp: "getFingerprint env (p\<lparr>keyID := Some new_KeyID\<rparr>) =
              (Inr (uint8ArrayToHex env fp),
               (snd (getFingerprintBytes env p))\<lparr>keyID := Some new_KeyID\<rparr>)"
    using assms(2) by (simp add: getFingerprint_def getFingerprintBytes_keyID_update)
  show ?thesis
    using assms(1,3,4)
    by (auto simp add: getKeyID_def Let_def fp KeyID_read_def subarray_12_20 subarray_0_8)
qed

text \<open>
  C2, amended. For a packet whose key id has not been asked for yet and whose fingerprint
  (as \<open>getFingerprintBytes()\<close> returns it) is \<open>fp\<close>, \<open>getKeyID()\<close> returns octets 12 to 20
  of \<open>fp\<close> when the version is 4 and octets 0 to 8 of \<open>fp\<close> when the version is 5, and
  stores that key id in the packet; every later call returns the stored key id, whatever
  version, created, algorithm and publicParams have been set to in between. The source
  goes through the hex form of the fingerprint; the two conversions of \<open>util\<close> are taken
  to undo each other on \<open>fp\<close>.
\<close>

theorem getKeyID_slice:
  assumes "keyID p = None"
    and "fst (getFingerprintBytes env p) = Inr (Some fp)"
    and "hexToUint8Array env (uint8ArrayToHex env fp) = fp"
  shows "(version p = 4 \<longrightarrow>
            fst (getKeyID env p) = Inr \<lparr>keyid_bytes = take 8 (drop 12 fp)\<rparr>) \<and>
         (version p = 5 \<longrightarrow>
            fst (getKeyID env p) = Inr \<lparr>keyid_bytes = take 8 fp\<rparr>) \<and>
         (version p = 4 \<or> version p = 5 \<longrightarrow>
            keyID (snd (getKeyID env p)) =
              Some \<lparr>keyid_bytes = (if version p = 4 then take 8 (drop 12 fp) else take 8 fp)\<rparr> \<and>
            getKeyID env
              ((snd (getKeyID env p))
                 \<lparr>version := v, created := c, algorithm := a, publicParams := pp\<rparr>) =
              (Inr \<lparr>keyid_bytes = (if version p = 4 then take 8 (drop 12 fp) else take 8 fp)\<rparr>,
               (snd (getKeyID env p))
                 \<lparr>version := v, created := c, algorithm := a, publicParams := pp\<rparr>))"
proof (intro conjI impI)
  assume v: "version p = 4"
  show "fst (getKeyID env p) = Inr \<lparr>keyid_bytes = take 8 (drop 12 fp)\<rparr>"
    using getKeyID_first_call [OF assms] v by simp
next
  assume v: "version p = 5"
  show "fst (getKeyID env p) = Inr \<lparr>keyid_bytes = take 8 fp\<rparr>"
    using getKeyID_first_call [OF assms] v by simp
next
  assume v: "version p = 4 \<or> version p = 5"
  show "keyID (snd (getKeyID env p)) =
          Some \<lparr>keyid_bytes = (if version p = 4 then take 8 (drop 12 fp) else take 8 fp)\<rparr>"
    by (simp add: getKeyID_first_call [OF assms v])
next
  assume v: "version p = 4 \<or> version p = 5"
  show "getKeyID env
          ((snd (getKeyID env p))
             \<lparr>version := v, created := c, algorithm := a, publicParams := pp\<rparr>) =
        (Inr \<lparr>keyid_bytes = (if version p = 4 then take 8 (drop 12 fp) else take 8 fp)\<rparr>,
         (snd (getKeyID env p))
           \<lparr>version := v, created := c, algorithm := a, publicParams := pp\<rparr>)"
    by (rule getKeyID_cached) (simp add: getKeyID_first_call [OF assms v])
qed

lemma example_fp_4:
  "getFingerprintBytes example_pk_env (example_key 4) =
     (Inr (Some [16, 15, 14, 13, 12, 11, 10, 9, 8, 7, 6, 5, 4, 3, 2, 1, 19, 0x10, 0x5C, 0x3C]),
      (example_key 4)\<lparr>fingerprint :=
         Some [16, 15, 14, 13, 12, 11, 10, 9, 8, 7, 6, 5, 4, 3, 2, 1, 19, 0x10, 0x5C, 0x3C]\<rparr>)"
  by (simp add: getFingerprintBytes_def writeForHash_def writePublicKey_def example_pk_env_def
      example_key_def enums_write_def enums_write_name_def example_registry_def writeNumber_2)

lemma example_fp_5:
  "getFingerprintBytes example_pk_env (example_key 5) =
     (Inr (Some [16, 15, 14, 13, 12, 11, 10, 9, 8, 7, 6, 5, 4, 3, 2, 1, 16, 0, 0, 0,
                19, 0x10, 0x5C, 0x3C, 0x4D, 5, 26, 0, 0, 0, 0x9A, 0]),
      (example_key 5)\<lparr>fingerprint :=
         Some [16, 15, 14, 13, 12, 11, 10, 9, 8, 7, 6, 5, 4, 3, 2, 1, 16, 0, 0, 0,
                19, 0x10, 0x5C, 0x3C, 0x4D, 5, 26, 0, 0, 0, 0x9A, 0]\<rparr>)"
  by (simp add: getFingerprintBytes_def writeForHash_def writePublicKey_def example_pk_env_def
      example_key_def enums_write_def enums_write_name_def example_registry_def writeNumber_4)

lemma example_hex_4:
  "example_fromHex (example_toHex
      [16, 15, 14, 13, 12, 11, 10, 9, 8, 7, 6, 5, 4, 3, 2, 1, 19, 0x10, 0x5C, 0x3C]) =
   [16, 15, 14, 13, 12, 11, 10, 9, 8, 7, 6, 5, 4, 3, 2, 1, 19, 0x10, 0x5C, 0x3C]"
  by code_simp

lemma example_hex_5:
  "example_fromHex (example_toHex
      [16, 15, 14, 13, 12, 11, 10, 9, 8, 7, 6, 5, 4, 3, 2, 1, 16, 0, 0, 0,
       19, 0x10, 0x5C, 0x3C, 0x4D, 5, 26, 0, 0, 0, 0x9A, 0]) =
   [16, 15, 14, 13, 12, 11, 10, 9, 8, 7, 6, 5, 4, 3, 2, 1, 16, 0, 0, 0,
    19, 0x10, 0x5C, 0x3C, 0x4D, 5, 26, 0, 0, 0, 0x9A, 0]"
  by code_simp


lemma example_keyid_4:
  "getKeyID example_pk_env (example_key 4) =
     (Inr \<lparr>keyid_bytes = [4, 3, 2, 1, 19, 0x10, 0x5C, 0x3C]\<rparr>,
      (example_key 4)
        \<lparr>fingerprint :=
           Some [16, 15, 14, 13, 12, 11, 10, 9, 8, 7, 6, 5, 4, 3, 2, 1, 19, 0x10, 0x5C, 0x3C],
         keyID := Some \<lparr>keyid_bytes = [4, 3, 2, 1, 19, 0x10, 0x5C, 0x3C]\<rparr>\<rparr>)"
proof -
  have k: "keyID (example_key 4) = None" and v: "version (example_key 4) = 4 \<or> version (example_key 4) = 5"
    by (simp_all add: example_key_def)
  have f: "fst (getFingerprintBytes example_pk_env (example_key 4)) =
      Inr (Some [16, 15, 14, 13, 12, 11, 10, 9, 8, 7, 6, 5, 4, 3, 2, 1, 19, 0x10, 0x5C, 0x3C])"
    by (simp add: example_fp_4)
  have h: "hexToUint8Array example_pk_env (uint8ArrayToHex example_pk_env
      [16, 15, 14, 13, 12, 11, 10, 9, 8, 7, 6, 5, 4, 3, 2, 1, 19, 0x10, 0x5C, 0x3C]) =
      [16, 15, 14, 13, 12, 11, 10, 9, 8, 7, 6, 5, 4, 3, 2, 1, 19, 0x10, 0x5C, 0x3C]"
    using example_hex_4 by (simp add: example_pk_env_def)
  have "version (example_key 4) = 4" by (simp add: example_key_def)
  then show ?thesis
    using getKeyID_first_call [OF k f h v] by (simp add: example_fp_4)
qed

theorem getKeyID_slice_witness:
  "fst (getKeyID example_pk_env (example_key 4)) =
     Inr \<lparr>keyid_bytes = [4, 3, 2, 1, 19, 0x10, 0x5C, 0x3C]\<rparr> \<and>
   fst (getKeyID example_pk_env (example_key 5)) =
     Inr \<lparr>keyid_bytes = [16, 15, 14, 13, 12, 11, 10, 9]\<rparr> \<and>
   fst (getKeyID example_pk_env
         ((snd (getKeyID example_pk_env (example_key 4)))
            \<lparr>version := 5, created := [0, 0, 0, 1], algorithm := None, publicParams := []\<rparr>)) =
     Inr \<lparr>keyid_bytes = [4, 3, 2, 1, 19, 0x10, 0x5C, 0x3C]\<rparr>"
proof -
  have k4: "keyID (example_key 4) = None" and k5: "keyID (example_key 5) = None"
    by (simp_all add: example_key_def)
  have v4: "version (example_key 4) = 4" and v5: "version (example_key 5) = 5"
    by (simp_all add: example_key_def)
  have f4: "fst (getFingerprintBytes example_pk_env (example_key 4)) =
      Inr (Some [16, 15, 14, 13, 12, 11, 10, 9, 8, 7, 6, 5, 4, 3, 2, 1, 19, 0x10, 0x5C, 0x3C])"
    by (simp add: example_fp_4)
  have f5: "fst (getFingerprintBytes example_pk_env (example_key 5)) =
      Inr (Some [16, 15, 14, 13, 12, 11, 10, 9, 8, 7, 6, 5, 4, 3, 2, 1, 16, 0, 0, 0,
                19, 0x10, 0x5C, 0x3C, 0x4D, 5, 26, 0, 0, 0, 0x9A, 0])"
    by (simp add: example_fp_5)
  have h4: "hexToUint8Array example_pk_env (uint8ArrayToHex example_pk_env
      [16, 15, 14, 13, 12, 11, 10, 9, 8, 7, 6, 5, 4, 3, 2, 1, 19, 0x10, 0x5C, 0x3C]) =
      [16, 15, 14, 13, 12, 11, 10, 9, 8, 7, 6, 5, 4, 3, 2, 1, 19, 0x10, 0x5C, 0x3C]"
    using example_hex_4 by (simp add: example_pk_env_def)
  have h5: "hexToUint8Array example_pk_env (uint8ArrayToHex example_pk_env
      [16, 15, 14, 13, 12, 11, 10, 9, 8, 7, 6, 5, 4, 3, 2, 1, 16, 0, 0, 0,
       19, 0x10, 0x5C, 0x3C, 0x4D, 5, 26, 0, 0, 0, 0x9A, 0]) =
      [16, 15, 14, 13, 12, 11, 10, 9, 8, 7, 6, 5, 4, 3, 2, 1, 16, 0, 0, 0,
       19, 0x10, 0x5C, 0x3C, 0x4D, 5, 26, 0, 0, 0, 0x9A, 0]"
    using example_hex_5 by (simp add: example_pk_env_def)
  show ?thesis
    using getKeyID_slice
        [OF k4 f4 h4, where v = 5 and c = "[0, 0, 0, 1]" and a = None and pp = "[]"]
      getKeyID_slice [OF k5 f5 h5, where v = 5 and c = "[]" and a = None and pp = "[]"]
      v4 v5
    by simp
qed

text \<open>
  C2. The claim: for every public-key packet \<open>getKeyID()\<close> returns octets 12 to 20 of
  the fingerprint for version 4 and octets 0 to 8 for version 5. It fails on a packet
  whose key id is already cached. After the key id of the version 4 example key was
  computed and \<open>version\<close> then set to 5, the call returns octets 12 to 20 of the
  fingerprint, not its octets 0 to 8. And when the first call throws (here the algorithm
  is not set yet), an empty key id stays behind, which the call returns once the
  algorithm is set, while the fingerprint has its 20 octets.
\<close>

theorem getKeyID_cache_outlives_fields:
  "fst (getKeyID example_pk_env
         ((snd (getKeyID example_pk_env (example_key 4)))\<lparr>version := 5\<rparr>)) =
     Inr \<lparr>keyid_bytes = [4, 3, 2, 1, 19, 0x10, 0x5C, 0x3C]\<rparr> \<and>
   fst (getFingerprintBytes example_pk_env
         ((snd (getKeyID example_pk_env (example_key 4)))\<lparr>version := 5\<rparr>)) =
     Inr (Some [16, 15, 14, 13, 12, 11, 10, 9, 8, 7, 6, 5, 4, 3, 2, 1, 19, 0x10, 0x5C, 0x3C]) \<and>
   fst (getKeyID example_pk_env ((example_key 4)\<lparr>algorithm := None\<rparr>)) =
     Inl (new_Error ''Invalid enum value.'') \<and>
   fst (getKeyID example_pk_env
         ((snd (getKeyID example_pk_env ((example_key 4)\<lparr>algorithm := None\<rparr>)))
            \<lparr>algorithm := Some (Name ''ecdsa'')\<rparr>)) =
     Inr \<lparr>keyid_bytes = []\<rparr> \<and>
   fst (getFingerprintBytes example_pk_env
         ((snd (getKeyID example_pk_env ((example_key 4)\<lparr>algorithm := None\<rparr>)))
            \<lparr>algorithm := Some (Name ''ecdsa'')\<rparr>)) =
     Inr (Some [16, 15, 14, 13, 12, 11, 10, 9, 8, 7, 6, 5, 4, 3, 2, 1, 19, 0x10, 0x5C, 0x3C])"
proof -
  have bad: "getKeyID example_pk_env ((example_key 4)\<lparr>algorithm := None\<rparr>) =
               (Inl (new_Error ''Invalid enum value.''),
                (example_key 4)\<lparr>algorithm := None, keyID := Some new_KeyID\<rparr>)"
    by (simp add: getKeyID_def getFingerprint_def getFingerprintBytes_def writeForHash_def
        writePublicKey_def example_pk_env_def example_key_def enums_write_def Let_def)
  have q: "(snd (getKeyID example_pk_env ((example_key 4)\<lparr>algorithm := None\<rparr>)))
              \<lparr>algorithm := Some (Name ''ecdsa'')\<rparr> =
           (example_key 4)\<lparr>keyID := Some new_KeyID\<rparr>"
    by (simp add: bad) (simp add: example_key_def)
  have k: "fst (getKeyID example_pk_env ((example_key 4)\<lparr>keyID := Some new_KeyID\<rparr>)) =
             Inr \<lparr>keyid_bytes = []\<rparr>"
    by (simp add: getKeyID_cached new_KeyID_def)
  have f: "fst (getFingerprintBytes example_pk_env
                 ((example_key 4)\<lparr>keyID := Some new_KeyID\<rparr>)) =
      Inr (Some [16, 15, 14, 13, 12, 11, 10, 9, 8, 7, 6, 5, 4, 3, 2, 1, 19, 0x10, 0x5C, 0x3C])"
    by (simp add: getFingerprintBytes_keyID_update example_fp_4)
  have stale: "fst (getKeyID example_pk_env
         ((snd (getKeyID example_pk_env (example_key 4)))\<lparr>version := 5\<rparr>)) =
     Inr \<lparr>keyid_bytes = [4, 3, 2, 1, 19, 0x10, 0x5C, 0x3C]\<rparr> \<and>
   fst (getFingerprintBytes example_pk_env
         ((snd (getKeyID example_pk_env (example_key 4)))\<lparr>version := 5\<rparr>)) =
     Inr (Some [16, 15, 14, 13, 12, 11, 10, 9, 8, 7, 6, 5, 4, 3, 2, 1, 19, 0x10, 0x5C, 0x3C])"
    by (simp add: example_keyid_4 getKeyID_cached getFingerprintBytes_cached)
  show ?thesis
    unfolding q using stale k f by (simp add: bad)
qed

text \<open>
  C7. The claim: after a mutation of version, created, algorithm or publicParams the
  cache is invalidated and the next \<open>getFingerprintBytes()\<close> returns the fingerprint of
  the new field values. The source has no invalidation: after the fingerprint of the
  version 4 example key was computed and \<open>version\<close> then set to 5, the call still
  returns the old fingerprint of 20 octets, not the 32 octets that a packet with the new
  field values gets.
\<close>

theorem fingerprint_cache_stale_after_mutation:
  "fst (getFingerprintBytes example_pk_env
         ((snd (getFingerprintBytes example_pk_env (example_key 4)))\<lparr>version := 5\<rparr>)) =
     Inr (Some [16, 15, 14, 13, 12, 11, 10, 9, 8, 7, 6, 5, 4, 3, 2, 1, 19, 0x10, 0x5C, 0x3C]) \<and>
   fst (getFingerprintBytes example_pk_env ((example_key 4)\<lparr>version := 5\<rparr>)) =
     Inr (Some [16, 15, 14, 13, 12, 11, 10, 9, 8, 7, 6, 5, 4, 3, 2, 1, 16, 0, 0, 0,
                19, 0x10, 0x5C, 0x3C, 0x4D, 5, 26, 0, 0, 0, 0x9A, 0])"
proof -
  have "(example_key 4)\<lparr>version := 5\<rparr> = example_key 5"
    by (simp add: example_key_def)
  then show ?thesis
    by (simp add: example_fp_4 example_fp_5 getFingerprintBytes_cached)
qed

text \<open>
  C7, amended. Once a fingerprint is cached, \<open>getFingerprintBytes()\<close> returns it after
  any assignment to version, created, algorithm and publicParams, and leaves the packet as
  it is: the cache is never invalidated. With an empty cache the result depends only on
  these four fields: two packets that agree on them get the same result.
\<close>

theorem fingerprint_cache_never_invalidated:
  "(fingerprint p = Some fp \<longrightarrow>
      getFingerprintBytes env
        (p\<lparr>version := v, created := c, algorithm := a, publicParams := pp\<rparr>) =
      (Inr (Some fp), p\<lparr>version := v, created := c, algorithm := a, publicParams := pp\<rparr>)) \<and>
   (fingerprint p = None \<and> fingerprint q = None \<and> version p = version q \<and>
    created p = created q \<and> algorithm p = algorithm q \<and> publicParams p = publicParams q \<longrightarrow>
      fst (getFingerprintBytes env p) = fst (getFingerprintBytes env q))"
  by (simp add: getFingerprintBytes_def writeForHash_def writePublicKey_def
      split: option.splits sum.splits)

theorem fingerprint_cache_never_invalidated_witness:
  "fst (getFingerprintBytes example_pk_env
         ((example_key 4)\<lparr>fingerprint := Some [1, 2, 3], version := 5, created := [0, 0, 0, 1],
            algorithm := Some (Name ''rsaEncryptSign''), publicParams := [9]\<rparr>)) =
     Inr (Some [1, 2, 3]) \<and>
   fst (getFingerprintBytes example_pk_env ((example_key 4)\<lparr>keyID := Some new_KeyID\<rparr>)) =
     fst (getFingerprintBytes example_pk_env (example_key 4))"
proof -
  have a: "fingerprint ((example_key 4)\<lparr>fingerprint := Some [1, 2, 3]\<rparr>) = Some [1, 2, 3]"
    by simp
  have b: "fingerprint ((example_key 4)\<lparr>keyID := Some new_KeyID\<rparr>) = None \<and>
           fingerprint (example_key 4) = None \<and>
           version ((example_key 4)\<lparr>keyID := Some new_KeyID\<rparr>) = version (example_key 4) \<and>
           created ((example_key 4)\<lparr>keyID := Some new_KeyID\<rparr>) = created (example_key 4) \<and>
           algorithm ((example_key 4)\<lparr>keyID := Some new_KeyID\<rparr>) = algorithm (example_key 4) \<and>
           publicParams ((example_key 4)\<lparr>keyID := Some new_KeyID\<rparr>) =
             publicParams (example_key 4)"
    by (simp add: example_key_def)
  show ?thesis
    using a b
      fingerprint_cache_never_invalidated
        [where p = "(example_key 4)\<lparr>fingerprint := Some [1, 2, 3]\<rparr>" and fp = "[1, 2, 3]"
            and env = example_pk_env and v = 5 and c = "[0, 0, 0, 1]"
            and a = "Some (Name ''rsaEncryptSign'')" and pp = "[9]" and q = "example_key 4"]
      fingerprint_cache_never_invalidated
        [where p = "(example_key 4)\<lparr>keyID := Some new_KeyID\<rparr>" and fp = "[]"
            and env = example_pk_env and v = 4 and c = "[]" and a = None and pp = "[]"
            and q = "example_key 4"]
    by simp
qed

section \<open>Theorems: packet list, \<open>write\<close>\<close>

lemma floor_log2_bounds: "0 < n \<Longrightarrow> 2 ^ floor_log2 n \<le> n \<and> n < 2 ^ Suc (floor_log2 n)"
proof (induction n rule: floor_log2.induct)
  case (1 n)
  show ?case
  proof (cases "n < 2")
    case True
    then have "floor_log2 n = 0" by (subst floor_log2.simps) simp
    with True "1.prems" show ?thesis by simp
  next
    case False
    then have pos: "0 < n div 2" by simp
    from "1.IH" [OF False pos]
    have lo: "2 ^ floor_log2 (n div 2) \<le> n div 2"
      and hi: "n div 2 < 2 ^ Suc (floor_log2 (n div 2))" by simp_all
    have fl: "floor_log2 n = Suc (floor_log2 (n div 2))"
      using False by (subst floor_log2.simps) simp
    have "2 * 2 ^ floor_log2 (n div 2) \<le> n" using lo by linarith
    moreover have "n < 2 * 2 ^ Suc (floor_log2 (n div 2))" using hi by linarith
    ultimately show ?thesis by (simp only: fl power_Suc) 
  qed
qed

lemma floor_log2_ge_9: assumes "512 \<le> n" shows "9 \<le> floor_log2 n"
proof (rule ccontr)
  assume "\<not> 9 \<le> floor_log2 n"
  then have "Suc (floor_log2 n) \<le> 9" by simp
  then have "(2::nat) ^ Suc (floor_log2 n) \<le> 2 ^ 9"
    by (rule power_increasing) simp
  moreover have "n < 2 ^ Suc (floor_log2 n)"
    using floor_log2_bounds [of n] assms by simp
  ultimately show False using assms by simp
qed

lemma chunk_power_fits:
  assumes "512 \<le> n"
  shows "2 ^ min (floor_log2 n) 30 \<le> n"
proof -
  have "(2::nat) ^ min (floor_log2 n) 30 \<le> 2 ^ floor_log2 n"
    by (rule power_increasing) simp_all
  also have "\<dots> \<le> n" using floor_log2_bounds [of n] assms by simp
  finally show ?thesis .
qed

lemma subarray_prefix: "subarray xs 0 (int k) = take k xs"
  by (simp add: subarray_def clamp_index_def min_def)

lemma subarray_from_nat: "subarray_from xs (int k) = drop k xs"
  by (simp add: subarray_from_def subarray_def clamp_index_def min_def)

lemma subarray_chunk:
  assumes "length h = 1"
  shows "subarray (h @ d) 0 (1 + 2 ^ p) = h @ take (2 ^ p) d"
proof -
  have "(1 + 2 ^ p :: int) = int (Suc (2 ^ p))" by simp
  then have "subarray (h @ d) 0 (1 + 2 ^ p) = take (Suc (2 ^ p)) (h @ d)"
    by (simp only: subarray_prefix)
  also have "\<dots> = h @ take (2 ^ p) d" using assms by (cases h) auto
  finally show ?thesis .
qed

lemma subarray_from_chunk:
  assumes "length h = 1"
  shows "subarray_from (h @ d) (1 + 2 ^ p) = drop (2 ^ p) d"
proof -
  have "(1 + 2 ^ p :: int) = int (Suc (2 ^ p))" by simp
  then have "subarray_from (h @ d) (1 + 2 ^ p) = drop (Suc (2 ^ p)) (h @ d)"
    by (simp only: subarray_from_nat)
  also have "\<dots> = drop (2 ^ p) d" using assms by (cases h) auto
  finally show ?thesis .
qed

lemma process_chunk_emit:
  assumes inv: "bufferLength st = length (concat (buffer st))"
    and hdr: "length (writePartialLength io (min (floor_log2 (bufferLength st + length v)) 30)) = 1"
    and big: "512 \<le> bufferLength st + length v"
  shows "process_chunk io st v =
           (Some (writePartialLength io (min (floor_log2 (bufferLength st + length v)) 30)
                  @ take (2 ^ min (floor_log2 (bufferLength st + length v)) 30)
                      (concat (buffer st) @ v)),
            \<lparr>buffer = [drop (2 ^ min (floor_log2 (bufferLength st + length v)) 30)
                         (concat (buffer st) @ v)],
             bufferLength = bufferLength st + length v
                - 2 ^ min (floor_log2 (bufferLength st + length v)) 30\<rparr>)"
  using big inv hdr
  by (simp add: process_chunk_def Let_def minLength_def subarray_chunk subarray_from_chunk)

lemma process_chunk_keep:
  assumes "bufferLength st + length v < 512"
  shows "process_chunk io st v =
           (None, \<lparr>buffer = buffer st @ [v], bufferLength = bufferLength st + length v\<rparr>)"
  using assms by (simp add: process_chunk_def Let_def minLength_def)

text \<open>
  The framing of the source against the framing as the specification words it: the
  chunks that \<open>stream.transform\<close> delivers are the segments of \<open>spec_segments\<close>, each
  under the partial-length header of its exponent, then the residue under a
  simple-length header. The source takes the exponent from a logarithm, the
  specification names the largest power of two; \<open>largest_exponent_eq\<close> shows they agree.
\<close>

lemma largest_exponent_eq:
  assumes "0 < n"
  shows "largest_exponent n c = min (floor_log2 n) c"
proof (induction c)
  case 0
  then show ?case by simp
next
  case (Suc q)
  have lo: "2 ^ floor_log2 n \<le> n" and hi: "n < 2 ^ Suc (floor_log2 n)"
    using floor_log2_bounds [OF assms] by simp_all
  show ?case
  proof (cases "2 ^ Suc q \<le> n")
    case True
    then have "(2::nat) ^ Suc q < 2 ^ Suc (floor_log2 n)" using hi by linarith
    then have "Suc q < Suc (floor_log2 n)"
      using power_less_imp_less_exp [of 2 "Suc q" "Suc (floor_log2 n)"]
      by (simp del: power_Suc)
    then show ?thesis using True by simp
  next
    case False
    then have "(2::nat) ^ floor_log2 n < 2 ^ Suc q" using lo by linarith
    then have "floor_log2 n < Suc q"
      using power_less_imp_less_exp [of 2 "floor_log2 n" "Suc q"]
      by (simp del: power_Suc)
    then show ?thesis using False Suc.IH by simp
  qed
qed

lemma transform_stream_spec:
  assumes hdr: "\<And>p. length (writePartialLength io p) = 1"
    and inv: "bufferLength st = length (concat (buffer st))"
  shows "transform_stream io st cs =
           map (\<lambda>s. writePartialLength io (seg_power s) @ seg_payload s)
             (spec_segments k (concat (buffer st)) cs)
           @ [writeSimpleLength io (length (spec_residue (concat (buffer st)) cs))
              @ spec_residue (concat (buffer st)) cs]"
  using inv
proof (induction cs arbitrary: st k)
  case Nil
  then show ?case by (simp add: finish_chunks_def)
next
  case (Cons v cs)
  define n where "n = bufferLength st + length v"
  define data where "data = concat (buffer st) @ v"
  have len: "length data = n" using Cons.prems by (simp add: data_def n_def)
  show ?case
  proof (cases "512 \<le> n")
    case True
    define p where "p = largest_exponent n 30"
    have p: "p = min (floor_log2 n) 30"
      using True by (simp add: p_def largest_exponent_eq)
    define st' where "st' = \<lparr>buffer = [drop (2 ^ p) data], bufferLength = n - 2 ^ p\<rparr>"
    have step: "process_chunk io st v = (Some (writePartialLength io p @ take (2 ^ p) data), st')"
      using process_chunk_emit [OF Cons.prems hdr] True
      by (simp add: n_def p data_def st'_def)
    have inv': "bufferLength st' = length (concat (buffer st'))"
      by (simp add: st'_def len)
    have seg: "spec_segments k (concat (buffer st)) (v # cs) =
                 \<lparr>seg_chunks = Suc k, seg_buffered = n, seg_power = p,
                  seg_payload = take (2 ^ p) data\<rparr>
                 # spec_segments (Suc k) (drop (2 ^ p) data) cs"
      using True len by (simp add: data_def p_def)
    have res: "spec_residue (concat (buffer st)) (v # cs) = spec_residue (drop (2 ^ p) data) cs"
      using True len by (simp add: data_def p_def)
    have cb: "concat (buffer st') = drop (2 ^ p) data" by (simp add: st'_def)
    show ?thesis
      using Cons.IH [OF inv', of "Suc k"]
      by (simp only: transform_stream.simps step seg res cb) simp
  next
    case False
    define st' where "st' = \<lparr>buffer = buffer st @ [v], bufferLength = n\<rparr>"
    have step: "process_chunk io st v = (None, st')"
      using process_chunk_keep [of st v io] False by (simp add: n_def st'_def)
    have inv': "bufferLength st' = length (concat (buffer st'))"
      using Cons.prems by (simp add: st'_def n_def)
    have seg: "spec_segments k (concat (buffer st)) (v # cs) = spec_segments (Suc k) data cs"
      using False len by (simp add: data_def)
    have res: "spec_residue (concat (buffer st)) (v # cs) = spec_residue data cs"
      using False len by (simp add: data_def)
    have cb: "concat (buffer st') = data" by (simp add: st'_def data_def)
    show ?thesis
      using Cons.IH [OF inv', of "Suc k"]
      by (simp only: transform_stream.simps step seg res cb) simp
  qed
qed

lemma take_drop_append: "take n xs @ drop n xs @ ys = xs @ ys"
  by (simp add: append_assoc [symmetric] del: append_assoc)

lemma spec_concat:
  "concat (map seg_payload (spec_segments k pending cs)) @ spec_residue pending cs =
     pending @ concat cs"
proof (induction cs arbitrary: k pending)
  case Nil
  then show ?case by simp
next
  case (Cons c cs)
  show ?case
  proof (cases "512 \<le> length (pending @ c)")
    case True
    then show ?thesis
      using Cons.IH [of "Suc k"]
      by (simp add: take_drop_append del: take_append drop_append length_append)
  next
    case False
    then show ?thesis
      using Cons.IH [of "Suc k" "pending @ c"]
      by (simp del: length_append)
  qed
qed

lemma spec_powers:
  "\<forall>s \<in> set (spec_segments k pending cs).
     length (seg_payload s) = 2 ^ seg_power s \<and> 9 \<le> seg_power s \<and> seg_power s \<le> 30 \<and>
     512 \<le> seg_buffered s \<and> 2 ^ seg_power s \<le> seg_buffered s \<and>
     (seg_power s < 30 \<longrightarrow> seg_buffered s < 2 ^ Suc (seg_power s))"
proof (induction cs arbitrary: k pending)
  case Nil
  then show ?case by simp
next
  case (Cons c cs)
  show ?case
  proof (cases "512 \<le> length (pending @ c)")
    case False
    then show ?thesis using Cons.IH by simp
  next
    case True
    define n where "n = length (pending @ c)"
    define p where "p = largest_exponent n 30"
    have big: "512 \<le> n" using True by (simp add: n_def)
    have p: "p = min (floor_log2 n) 30" using big by (simp add: p_def largest_exponent_eq)
    have fits: "2 ^ p \<le> n" using chunk_power_fits [OF big] by (simp add: p)
    have p9: "9 \<le> p" using floor_log2_ge_9 [OF big] by (simp add: p)
    have p30: "p \<le> 30" by (simp add: p)
    have hi: "p < 30 \<longrightarrow> n < 2 ^ Suc p"
    proof
      assume "p < 30"
      then have "p = floor_log2 n" by (simp add: p min_def split: if_splits)
      then show "n < 2 ^ Suc p" using floor_log2_bounds [of n] big by simp
    qed
    have seg: "spec_segments k pending (c # cs) =
                 \<lparr>seg_chunks = Suc k, seg_buffered = n, seg_power = p,
                  seg_payload = take (2 ^ p) (pending @ c)\<rparr>
                 # spec_segments (Suc k) (drop (2 ^ p) (pending @ c)) cs"
      using True by (simp add: n_def p_def)
    have "length (take (2 ^ p) (pending @ c)) = 2 ^ p"
      using fits by (simp add: n_def)
    then show ?thesis
      using Cons.IH [of "Suc k" "drop (2 ^ p) (pending @ c)"] big fits p9 p30 hi
      by (simp only: seg) (simp del: power_Suc)
  qed
qed

lemma spec_nonempty:
  "length pending < 512 \<Longrightarrow> 512 \<le> length pending + length (concat cs) \<Longrightarrow>
   spec_segments k pending cs \<noteq> []"
proof (induction cs arbitrary: k pending)
  case Nil
  then show ?case by simp
next
  case (Cons c cs)
  show ?case
  proof (cases "512 \<le> length (pending @ c)")
    case True
    then show ?thesis by simp
  next
    case False
    then show ?thesis using Cons.IH [of "pending @ c" "Suc k"] Cons.prems by simp
  qed
qed

lemma spec_arrival:
  assumes "spec_segments k pending cs = s1 @ s # s2"
  shows "k < seg_chunks s \<and> seg_chunks s \<le> k + length cs \<and>
         seg_buffered s + length (concat (map seg_payload s1)) =
           length pending + length (concat (take (seg_chunks s - k) cs))"
  using assms
proof (induction cs arbitrary: k pending s1)
  case Nil
  then show ?case by simp
next
  case (Cons c cs)
  define buf where "buf = pending @ c"
  show ?case
  proof (cases "512 \<le> length buf")
    case False
    then have "spec_segments (Suc k) buf cs = s1 @ s # s2"
      using Cons.prems by (simp add: buf_def)
    from Cons.IH [OF this]
    have a: "Suc k < seg_chunks s" and b: "seg_chunks s \<le> Suc k + length cs"
      and c: "seg_buffered s + length (concat (map seg_payload s1)) =
                length buf + length (concat (take (seg_chunks s - Suc k) cs))"
      by simp_all
    have "seg_chunks s - k = Suc (seg_chunks s - Suc k)" using a by simp
    then show ?thesis using a b c by (simp add: buf_def)
  next
    case True
    define p where "p = largest_exponent (length buf) 30"
    define seg0 where "seg0 = \<lparr>seg_chunks = Suc k, seg_buffered = length buf, seg_power = p,
                               seg_payload = take (2 ^ p) buf\<rparr>"
    have unf: "spec_segments k pending (c # cs) =
                 seg0 # spec_segments (Suc k) (drop (2 ^ p) buf) cs"
      using True
      by (simp add: buf_def p_def seg0_def del: take_append drop_append length_append)
    then have eq: "seg0 # spec_segments (Suc k) (drop (2 ^ p) buf) cs = s1 @ s # s2"
      using Cons.prems by simp
    show ?thesis
    proof (cases s1)
      case Nil
      then have "s = seg0" using eq by simp
      then show ?thesis using Nil by (simp add: seg0_def buf_def)
    next
      case (Cons x s1')
      then have x: "x = seg0" and rest: "spec_segments (Suc k) (drop (2 ^ p) buf) cs = s1' @ s # s2"
        using eq by simp_all
      from Cons.IH [OF rest]
      have a: "Suc k < seg_chunks s" and b: "seg_chunks s \<le> Suc k + length cs"
        and c: "seg_buffered s + length (concat (map seg_payload s1')) =
                  length (drop (2 ^ p) buf) + length (concat (take (seg_chunks s - Suc k) cs))"
        by simp_all
      have k: "seg_chunks s - k = Suc (seg_chunks s - Suc k)" using a by simp
      have "length (take (2 ^ p) buf) + length (drop (2 ^ p) buf) = length buf"
        by simp
      then have d: "length (take (2 ^ p) buf) + length (drop (2 ^ p) buf) =
                      length pending + length c"
        by (simp add: buf_def)
      have "seg_buffered s + length (concat (map seg_payload s1)) =
              length (take (2 ^ p) buf)
              + (seg_buffered s + length (concat (map seg_payload s1')))"
        by (simp add: Cons x seg0_def)
      also have "\<dots> = length pending + length c
                        + length (concat (take (seg_chunks s - Suc k) cs))"
        using c d by linarith
      finally show ?thesis using a b by (simp add: k)
    qed
  qed
qed

lemma PacketList_write_append:
  "PacketList_write io (xs @ y # ys) =
     PacketList_write io xs @ write_packet io y @ PacketList_write io ys"
  by (simp add: PacketList_write_def)

text \<open>
  C3. For a packet of a streaming-capable tag whose \<open>write()\<close> gives a stream of total
  length at least 512, in any position of the list, \<open>PacketList.write\<close> emits exactly
  the tag, then the segments of the specification's framing, each as a partial-length
  header for its exponent \<open>p\<close> followed by its payload, then the residue under a
  simple-length header. There is at least one segment; the payloads and the residue,
  in order, are the body; every payload has exactly \<open>2 ^ p\<close> octets with
  \<open>9 \<le> p \<le> 30\<close>; and \<open>2 ^ p\<close> is the largest power of two that is at most the
  buffered length and at most \<open>2 ^ 30\<close>, where the buffered length of a segment is at
  least 512 and is the length of the chunks that have arrived so far less the payloads
  already emitted. The source cuts the emitted chunk one octet after the header's
  first, so the partial-length header is taken to be one octet.
\<close>

theorem write_partial_length_framing:
  assumes str: "supportsStreaming io tag"
    and hdr: "\<forall>p. length (writePartialLength io p) = 1"
    and big: "512 \<le> length (concat chunks)"
  shows "PacketList_write io (earlier @ (tag, BodyStream chunks) # later) =
           PacketList_write io earlier
           @ (writeTag io tag
              # map (\<lambda>s. writePartialLength io (seg_power s) @ seg_payload s)
                  (spec_segments 0 [] chunks)
              @ [writeSimpleLength io (length (spec_residue [] chunks))
                 @ spec_residue [] chunks])
           @ PacketList_write io later \<and>
         spec_segments 0 [] chunks \<noteq> [] \<and>
         concat (map seg_payload (spec_segments 0 [] chunks)) @ spec_residue [] chunks =
           concat chunks \<and>
         (\<forall>s \<in> set (spec_segments 0 [] chunks).
            length (seg_payload s) = 2 ^ seg_power s \<and> 9 \<le> seg_power s \<and>
            seg_power s \<le> 30 \<and> 512 \<le> seg_buffered s \<and>
            2 ^ seg_power s \<le> seg_buffered s \<and>
            (seg_power s < 30 \<longrightarrow> seg_buffered s < 2 ^ Suc (seg_power s))) \<and>
         (\<forall>s1 s s2. spec_segments 0 [] chunks = s1 @ s # s2 \<longrightarrow>
            0 < seg_chunks s \<and> seg_chunks s \<le> length chunks \<and>
            seg_buffered s + length (concat (map seg_payload s1)) =
              length (concat (take (seg_chunks s) chunks)))"
proof (intro conjI allI impI ballI)
  have inv: "bufferLength initial_state = length (concat (buffer initial_state))"
    by (simp add: initial_state_def)
  have "transform_stream io initial_state chunks =
          map (\<lambda>s. writePartialLength io (seg_power s) @ seg_payload s)
            (spec_segments 0 [] chunks)
          @ [writeSimpleLength io (length (spec_residue [] chunks)) @ spec_residue [] chunks]"
    using transform_stream_spec [of io initial_state chunks 0, OF _ inv] hdr
    by (simp add: initial_state_def)
  then have "write_packet io (tag, BodyStream chunks) =
          writeTag io tag
          # map (\<lambda>s. writePartialLength io (seg_power s) @ seg_payload s)
              (spec_segments 0 [] chunks)
          @ [writeSimpleLength io (length (spec_residue [] chunks)) @ spec_residue [] chunks]"
    using str by (simp add: write_packet_def)
  then show "PacketList_write io (earlier @ (tag, BodyStream chunks) # later) =
           PacketList_write io earlier
           @ (writeTag io tag
              # map (\<lambda>s. writePartialLength io (seg_power s) @ seg_payload s)
                  (spec_segments 0 [] chunks)
              @ [writeSimpleLength io (length (spec_residue [] chunks))
                 @ spec_residue [] chunks])
           @ PacketList_write io later"
    by (simp only: PacketList_write_append)
next
  show "spec_segments 0 [] chunks \<noteq> []"
    using spec_nonempty [of "[]" chunks 0] big by simp
next
  show "concat (map seg_payload (spec_segments 0 [] chunks)) @ spec_residue [] chunks =
          concat chunks"
    using spec_concat [of 0 "[]" chunks] by simp
next
  fix s assume "s \<in> set (spec_segments 0 [] chunks)"
  then have "length (seg_payload s) = 2 ^ seg_power s \<and> 9 \<le> seg_power s \<and>
            seg_power s \<le> 30 \<and> 512 \<le> seg_buffered s \<and>
            2 ^ seg_power s \<le> seg_buffered s \<and>
            (seg_power s < 30 \<longrightarrow> seg_buffered s < 2 ^ Suc (seg_power s))"
    using spec_powers [of 0 "[]" chunks] by blast
  then show "length (seg_payload s) = 2 ^ seg_power s" and "9 \<le> seg_power s"
    and "seg_power s \<le> 30" and "512 \<le> seg_buffered s"
    and "2 ^ seg_power s \<le> seg_buffered s"
    and "seg_power s < 30 \<Longrightarrow> seg_buffered s < 2 ^ Suc (seg_power s)"
    by simp_all
next
  fix s1 s s2 assume "spec_segments 0 [] chunks = s1 @ s # s2"
  from spec_arrival [OF this]
  show "0 < seg_chunks s" and "seg_chunks s \<le> length chunks"
    and "seg_buffered s + length (concat (map seg_payload s1)) =
           length (concat (take (seg_chunks s) chunks))"
    by simp_all
qed

text \<open>
  The same on an example: a list of a three-octet packet of tag 2 and a literal-data
  packet whose body of 600 octets arrives in two chunks of 300. The first chunk is
  kept; on the second, 600 octets are buffered and 512 of them go out under the
  partial-length header for 9; the other 88 follow under a simple length.
\<close>

lemma floor_log2_600: "floor_log2 600 = 9"
  by code_simp

lemma largest_exponent_600: "largest_exponent 600 30 = 9"
  by (simp add: largest_exponent_eq floor_log2_600)

lemma example_segments_600:
  assumes "length a = 300" and "length b = 300"
  shows "spec_segments 0 [] [a, b] =
           [\<lparr>seg_chunks = 2, seg_buffered = 600, seg_power = 9,
             seg_payload = a @ take 212 b\<rparr>] \<and>
         spec_residue [] [a, b] = drop 212 b"
proof -
  have l1: "\<not> 512 \<le> length ([] @ a)" using assms by simp
  have l2: "512 \<le> length (a @ b)" and n: "length (a @ b) = 600" using assms by simp_all
  have t: "take (2 ^ 9) (a @ b) = a @ take 212 b" and d: "drop (2 ^ 9) (a @ b) = drop 212 b"
    using assms by simp_all
  have s1: "spec_segments 0 [] [a, b] = spec_segments (Suc 0) a [b]"
    using l1 by (simp only: spec_segments.simps if_False append_Nil)
  have s2: "spec_segments (Suc 0) a [b] =
              [\<lparr>seg_chunks = Suc (Suc 0), seg_buffered = 600, seg_power = 9,
                seg_payload = a @ take 212 b\<rparr>]"
    using l2
    by (simp only: spec_segments.simps if_True n largest_exponent_600 t d)
  have r1: "spec_residue [] [a, b] = spec_residue a [b]"
    using l1 by (simp only: spec_residue.simps if_False append_Nil)
  have r2: "spec_residue a [b] = drop 212 b"
    using l2 by (simp only: spec_residue.simps if_True n largest_exponent_600 d)
  have two: "Suc (Suc 0) = 2" by simp
  show ?thesis by (simp only: s1 s2 r1 r2 two)
qed

theorem write_partial_length_framing_witness:
  "PacketList_write example_io
     [(2, BodyBytes [1, 2, 3]), (11, BodyStream [replicate 300 1, replicate 300 2])] =
     [[194, 3], [1, 2, 3], [203], 233 # replicate 300 1 @ replicate 212 2,
      88 # replicate 88 2]"
proof -
  have a: "supportsStreaming example_io 11" by (simp add: example_io_def)
  have b: "\<forall>p. length (writePartialLength example_io p) = 1" by (simp add: example_io_def)
  have c: "512 \<le> length (concat [replicate 300 (1::byte), replicate 300 2])" by simp
  have la: "length (replicate 300 (1::byte)) = 300" and lb: "length (replicate 300 (2::byte)) = 300"
    by simp_all
  have tk: "take 212 (replicate 300 (2::byte)) = replicate 212 2"
    and dr: "drop 212 (replicate 300 (2::byte)) = replicate 88 2"
    by simp_all
  have segs: "spec_segments 0 [] [replicate 300 (1::byte), replicate 300 2] =
                [\<lparr>seg_chunks = 2, seg_buffered = 600, seg_power = 9,
                  seg_payload = replicate 300 1 @ replicate 212 2\<rparr>]"
    using example_segments_600 [OF la lb] by (simp only: tk)
  have res: "spec_residue [] [replicate 300 (1::byte), replicate 300 2] = replicate 88 2"
    using example_segments_600 [OF la lb] by (simp only: dr)
  have pre: "PacketList_write example_io [(2, BodyBytes [1, 2, 3])] = [[194, 3], [1, 2, 3]]"
    by (simp add: PacketList_write_def write_packet_def example_io_def
          example_simple_length_def)
  have post: "PacketList_write example_io [] = []"
    by (simp add: PacketList_write_def)
  have hd: "writeTag example_io 11 = [203]"
    and pl: "writePartialLength example_io 9 = [233]"
    and sl: "writeSimpleLength example_io 88 = [88]"
    by (simp_all add: example_io_def example_simple_length_def)
  have l88: "length (replicate 88 (2::byte)) = 88" by simp
  note inst = write_partial_length_framing [OF a b c,
      where earlier = "[(2, BodyBytes [1, 2, 3])]" and later = "[]", THEN conjunct1]
  have "PacketList_write example_io
          ([(2, BodyBytes [1, 2, 3])]
           @ [(11, BodyStream [replicate 300 1, replicate 300 2])]) =
        [[194, 3], [1, 2, 3]]
        @ ([203] # [[233] @ (replicate 300 1 @ replicate 212 2)] @ [[88] @ replicate 88 2])
        @ []"
    using inst unfolding segs res pre post hd l88 sl
    by (simp only: list.map segment.simps pl)
  then show ?thesis by simp
qed


section \<open>Theorems: packet list, \<open>read\<close>\<close>

lemma read_loop_aborted:
  "failure w = Some e \<Longrightarrow> read_loop io al cfg w toks = w"
  by (cases toks) simp_all

lemma read_loop_append:
  "read_loop io al cfg w (xs @ ys) = read_loop io al cfg (read_loop io al cfg w xs) ys"
proof (induction xs arbitrary: w)
  case Nil
  then show ?case by simp
next
  case (Cons x xs)
  show ?case
  proof (cases "failure w")
    case None
    then show ?thesis using Cons.IH by simp
  next
    case (Some e)
    then show ?thesis by (simp add: read_loop_aborted)
  qed
qed

lemma read_loop_tolerated:
  assumes "failure w = None"
    and "\<forall>t \<in> set toks. \<forall>e. parse_token io al cfg t = Inl e \<longrightarrow>
           tolerant cfg \<and> \<not> supportsStreaming io (fst t)"
  shows "read_loop io al cfg w toks =
           w\<lparr>delivered := delivered w @ parsed_packets io al cfg toks,
             logged := logged w @ parse_errors io al cfg toks\<rparr>"
  using assms
proof (induction toks arbitrary: w)
  case Nil
  then show ?case by (simp add: parsed_packets_def parse_errors_def)
next
  case (Cons t toks)
  have rest: "\<forall>t \<in> set toks. \<forall>e. parse_token io al cfg t = Inl e \<longrightarrow>
                tolerant cfg \<and> \<not> supportsStreaming io (fst t)"
    using Cons.prems(2) by simp
  show ?case
  proof (cases "parse_token io al cfg t")
    case (Inr p)
    have step: "on_parsed io al cfg w t = w\<lparr>delivered := delivered w @ [p]\<rparr>"
      by (simp add: on_parsed_def Inr writer_write_def)
    have f: "failure (w\<lparr>delivered := delivered w @ [p]\<rparr>) = None"
      using Cons.prems(1) by simp
    show ?thesis
      using Cons.IH [OF f rest] Cons.prems(1)
      by (simp add: step Inr parsed_packets_def parse_errors_def)
  next
    case (Inl e)
    then have tol: "tolerant cfg \<and> \<not> supportsStreaming io (fst t)"
      using Cons.prems(2) by simp
    have step: "on_parsed io al cfg w t = w\<lparr>logged := logged w @ [e]\<rparr>"
      using tol by (simp add: on_parsed_def Inl printDebugError_def)
    have f: "failure (w\<lparr>logged := logged w @ [e]\<rparr>) = None"
      using Cons.prems(1) by simp
    show ?thesis
      using Cons.IH [OF f rest] Cons.prems(1)
      by (simp add: step Inl parsed_packets_def parse_errors_def)
  qed
qed

lemma read_loop_first_abort:
  assumes "\<forall>t \<in> set pre. \<forall>e. parse_token io al cfg t = Inl e \<longrightarrow>
             tolerant cfg \<and> \<not> supportsStreaming io (fst t)"
    and "parse_token io al cfg (tag, b) = Inl e"
    and "\<not> tolerant cfg \<or> supportsStreaming io tag"
  shows "read_loop io al cfg new_stream (pre @ (tag, b) # post) =
           \<lparr>delivered = parsed_packets io al cfg pre, failure = Some e,
            logged = parse_errors io al cfg pre @ [e]\<rparr>"
proof -
  let ?w = "\<lparr>delivered = parsed_packets io al cfg pre, failure = None,
             logged = parse_errors io al cfg pre\<rparr>"
  have a: "read_loop io al cfg new_stream pre = ?w"
    using read_loop_tolerated [OF _ assms(1), of new_stream] by (simp add: new_stream_def)
  have b: "on_parsed io al cfg ?w (tag, b) =
             \<lparr>delivered = parsed_packets io al cfg pre, failure = Some e,
              logged = parse_errors io al cfg pre @ [e]\<rparr>"
    using assms(3) by (auto simp add: on_parsed_def assms(2) writer_abort_def printDebugError_def)
  show ?thesis
    by (simp add: read_loop_append a b read_loop_aborted)
qed

text \<open>
  C4. For every input that holds at least one packet:
  \<^item> when every token that fails to parse has a tag that does not support streaming,
    and \<open>config.tolerant\<close> is true, nothing is aborted: every failing token is skipped
    and its error logged, the stream holds the packets of all the other tokens in the
    order of the input, and \<open>read\<close> returns them;
  \<^item> when the first token whose failure is not so tolerated is \<open>(tag, b)\<close>, failing
    with \<open>e\<close> (so \<open>tag\<close> supports streaming or \<open>config.tolerant\<close> is false), the stream
    is aborted with \<open>e\<close>, holding the packets before that token with the tolerated
    failures among them skipped, the log ends with \<open>e\<close>, and \<open>read\<close> fails with \<open>e\<close>;
  \<^item> so the read is aborted if and only if some token fails to parse and its tag
    supports streaming or \<open>config.tolerant\<close> is false.
\<close>

theorem read_aborts_or_skips:
  "(toks \<noteq> [] \<and>
    (\<forall>t \<in> set toks. \<forall>e. parse_token io al cfg t = Inl e \<longrightarrow>
       tolerant cfg \<and> \<not> supportsStreaming io (fst t)) \<longrightarrow>
      read_stream io al cfg toks =
        \<lparr>delivered = parsed_packets io al cfg toks, failure = None,
         logged = parse_errors io al cfg toks\<rparr> \<and>
      PacketList_read io al cfg toks = Inr (drain io (parsed_packets io al cfg toks))) \<and>
   ((\<forall>t \<in> set pre. \<forall>e. parse_token io al cfg t = Inl e \<longrightarrow>
       tolerant cfg \<and> \<not> supportsStreaming io (fst t)) \<and>
    parse_token io al cfg (tag, b) = Inl e \<and>
    (\<not> tolerant cfg \<or> supportsStreaming io tag) \<longrightarrow>
      read_stream io al cfg (pre @ (tag, b) # post) =
        \<lparr>delivered = parsed_packets io al cfg pre, failure = Some e,
         logged = parse_errors io al cfg pre @ [e]\<rparr> \<and>
      PacketList_read io al cfg (pre @ (tag, b) # post) = Inl e) \<and>
   (toks \<noteq> [] \<longrightarrow>
      (failure (read_stream io al cfg toks) \<noteq> None \<longleftrightarrow>
       (\<exists>t \<in> set toks. \<exists>e. parse_token io al cfg t = Inl e \<and>
          (\<not> tolerant cfg \<or> supportsStreaming io (fst t)))))"
proof (intro conjI impI)
  assume a: "toks \<noteq> [] \<and>
    (\<forall>t \<in> set toks. \<forall>e. parse_token io al cfg t = Inl e \<longrightarrow>
       tolerant cfg \<and> \<not> supportsStreaming io (fst t))"
  then have ok: "\<forall>t \<in> set toks. \<forall>e. parse_token io al cfg t = Inl e \<longrightarrow>
       tolerant cfg \<and> \<not> supportsStreaming io (fst t)" by blast
  show s: "read_stream io al cfg toks =
        \<lparr>delivered = parsed_packets io al cfg toks, failure = None,
         logged = parse_errors io al cfg toks\<rparr>"
    using a read_loop_tolerated [OF _ ok, of new_stream]
    by (simp add: read_stream_def new_stream_def)
  show "PacketList_read io al cfg toks = Inr (drain io (parsed_packets io al cfg toks))"
    by (simp add: PacketList_read_def Let_def s)
next
  assume a: "(\<forall>t \<in> set pre. \<forall>e. parse_token io al cfg t = Inl e \<longrightarrow>
       tolerant cfg \<and> \<not> supportsStreaming io (fst t)) \<and>
    parse_token io al cfg (tag, b) = Inl e \<and>
    (\<not> tolerant cfg \<or> supportsStreaming io tag)"
  show s: "read_stream io al cfg (pre @ (tag, b) # post) =
        \<lparr>delivered = parsed_packets io al cfg pre, failure = Some e,
         logged = parse_errors io al cfg pre @ [e]\<rparr>"
    using a read_loop_first_abort [of pre io al cfg tag b e post]
    by (simp add: read_stream_def)
  show "PacketList_read io al cfg (pre @ (tag, b) # post) = Inl e"
    by (simp add: PacketList_read_def Let_def s)
next
  assume ne: "toks \<noteq> []"
  show "failure (read_stream io al cfg toks) \<noteq> None \<longleftrightarrow>
       (\<exists>t \<in> set toks. \<exists>e. parse_token io al cfg t = Inl e \<and>
          (\<not> tolerant cfg \<or> supportsStreaming io (fst t)))"
  proof (cases "\<exists>t \<in> set toks. \<exists>e. parse_token io al cfg t = Inl e \<and>
          (\<not> tolerant cfg \<or> supportsStreaming io (fst t))")
    case True
    then obtain pre t post where
      sp: "toks = pre @ t # post"
      and t: "\<exists>e. parse_token io al cfg t = Inl e \<and>
                (\<not> tolerant cfg \<or> supportsStreaming io (fst t))"
      and pre: "\<forall>u \<in> set pre. \<not> (\<exists>e. parse_token io al cfg u = Inl e \<and>
                (\<not> tolerant cfg \<or> supportsStreaming io (fst u)))"
      using split_list_first_prop [of toks "\<lambda>t. \<exists>e. parse_token io al cfg t = Inl e \<and>
          (\<not> tolerant cfg \<or> supportsStreaming io (fst t))"] by blast
    from t obtain e where e: "parse_token io al cfg (fst t, snd t) = Inl e"
      and c: "\<not> tolerant cfg \<or> supportsStreaming io (fst t)" by auto
    have pre': "\<forall>u \<in> set pre. \<forall>e. parse_token io al cfg u = Inl e \<longrightarrow>
                  tolerant cfg \<and> \<not> supportsStreaming io (fst u)"
      using pre by blast
    have "read_loop io al cfg new_stream (pre @ (fst t, snd t) # post) =
            \<lparr>delivered = parsed_packets io al cfg pre, failure = Some e,
             logged = parse_errors io al cfg pre @ [e]\<rparr>"
      by (rule read_loop_first_abort [OF pre' e c])
    then have "failure (read_stream io al cfg toks) = Some e"
      by (simp add: read_stream_def sp)
    then show ?thesis using True by simp
  next
    case False
    then have ok: "\<forall>t \<in> set toks. \<forall>e. parse_token io al cfg t = Inl e \<longrightarrow>
       tolerant cfg \<and> \<not> supportsStreaming io (fst t)" by blast
    have "failure (read_stream io al cfg toks) = None"
      using ne read_loop_tolerated [OF _ ok, of new_stream]
      by (simp add: read_stream_def new_stream_def)
    then show ?thesis using False by simp
  qed
qed

lemma example_parse:
  "parse_token example_reader_io example_allowed cfg (6, BodyBytes [1]) = Inr (6, [1])"
  "parse_token example_reader_io example_allowed cfg (6, BodyBytes [0xFF, 0xFF]) =
     Inl (new_Error ''Error reading MPIs'')"
  "parse_token example_reader_io example_allowed cfg (6, BodyBytes [2]) = Inr (6, [2])"
  "parse_token example_reader_io example_allowed cfg (6, BodyBytes [0xFF]) =
     Inl (new_Error ''Error reading MPIs'')"
  "parse_token example_reader_io example_allowed cfg (6, BodyBytes [3]) = Inr (6, [3])"
  by (simp_all add: parse_token_def newPacketFromTag_def example_allowed_def example_class_def)

lemma example_streaming: "supportsStreaming example_reader_io tag = (tag = 11)"
  by (simp add: example_reader_io_def)

theorem read_aborts_or_skips_witness:
  "read_stream example_reader_io example_allowed \<lparr>tolerant = True\<rparr> example_tokens =
     \<lparr>delivered = [(6, [1]), (6, [2]), (6, [3])], failure = None,
      logged = [new_Error ''Error reading MPIs'', new_Error ''Error reading MPIs'']\<rparr> \<and>
   PacketList_read example_reader_io example_allowed \<lparr>tolerant = True\<rparr> example_tokens =
     Inr ([(6, [1]), (6, [2]), (6, [3])], None) \<and>
   read_stream example_reader_io example_allowed \<lparr>tolerant = False\<rparr> example_tokens =
     \<lparr>delivered = [(6, [1])], failure = Some (new_Error ''Error reading MPIs''),
      logged = [new_Error ''Error reading MPIs'']\<rparr> \<and>
   PacketList_read example_reader_io example_allowed \<lparr>tolerant = False\<rparr> example_tokens =
     Inl (new_Error ''Error reading MPIs'')"
proof -
  have toks: "example_tokens =
      [(6, BodyBytes [1])] @ (6, BodyBytes [0xFF, 0xFF])
        # [(6, BodyBytes [2]), (6, BodyBytes [0xFF]), (6, BodyBytes [3])]"
    by (simp add: example_tokens_def)
  have ok: "example_tokens \<noteq> [] \<and>
      (\<forall>t \<in> set example_tokens. \<forall>e.
         parse_token example_reader_io example_allowed \<lparr>tolerant = True\<rparr> t = Inl e \<longrightarrow>
         tolerant \<lparr>tolerant = True\<rparr> \<and> \<not> supportsStreaming example_reader_io (fst t))"
    by (simp add: example_tokens_def example_streaming)
  have pk: "parsed_packets example_reader_io example_allowed cfg example_tokens =
              [(6, [1]), (6, [2]), (6, [3])]"
    "parse_errors example_reader_io example_allowed cfg example_tokens =
              [new_Error ''Error reading MPIs'', new_Error ''Error reading MPIs'']"
    "parsed_packets example_reader_io example_allowed cfg [(6, BodyBytes [1])] = [(6, [1])]"
    "parse_errors example_reader_io example_allowed cfg [(6, BodyBytes [1])] = []"
    for cfg
    by (simp_all add: parsed_packets_def parse_errors_def example_tokens_def example_parse)
  have bad: "(\<forall>t \<in> set [(6, BodyBytes [1])]. \<forall>e.
         parse_token example_reader_io example_allowed \<lparr>tolerant = False\<rparr> t = Inl e \<longrightarrow>
         tolerant \<lparr>tolerant = False\<rparr> \<and> \<not> supportsStreaming example_reader_io (fst t)) \<and>
      parse_token example_reader_io example_allowed \<lparr>tolerant = False\<rparr>
        (6, BodyBytes [0xFF, 0xFF]) = Inl (new_Error ''Error reading MPIs'') \<and>
      (\<not> tolerant \<lparr>tolerant = False\<rparr> \<or> supportsStreaming example_reader_io 6)"
    by (simp add: example_parse)
  note t1 = read_aborts_or_skips
    [where io = example_reader_io and al = example_allowed and cfg = "\<lparr>tolerant = True\<rparr>"
       and toks = example_tokens and pre = "[]" and tag = 6 and b = "BodyBytes []"
       and e = "new_Error []" and post = "[]"]
  note t2 = read_aborts_or_skips
    [where io = example_reader_io and al = example_allowed and cfg = "\<lparr>tolerant = False\<rparr>"
       and toks = example_tokens and pre = "[(6, BodyBytes [1])]" and tag = 6
       and b = "BodyBytes [0xFF, 0xFF]" and e = "new_Error ''Error reading MPIs''"
       and post = "[(6, BodyBytes [2]), (6, BodyBytes [0xFF]), (6, BodyBytes [3])]"]
  from t1 ok have a: "read_stream example_reader_io example_allowed \<lparr>tolerant = True\<rparr>
        example_tokens =
        \<lparr>delivered = parsed_packets example_reader_io example_allowed \<lparr>tolerant = True\<rparr>
           example_tokens, failure = None,
         logged = parse_errors example_reader_io example_allowed \<lparr>tolerant = True\<rparr>
           example_tokens\<rparr> \<and>
      PacketList_read example_reader_io example_allowed \<lparr>tolerant = True\<rparr> example_tokens =
        Inr (drain example_reader_io
               (parsed_packets example_reader_io example_allowed \<lparr>tolerant = True\<rparr>
                  example_tokens))"
    by blast
  from t2 bad have b: "read_stream example_reader_io example_allowed \<lparr>tolerant = False\<rparr>
        ([(6, BodyBytes [1])] @ (6, BodyBytes [0xFF, 0xFF])
           # [(6, BodyBytes [2]), (6, BodyBytes [0xFF]), (6, BodyBytes [3])]) =
        \<lparr>delivered = parsed_packets example_reader_io example_allowed \<lparr>tolerant = False\<rparr>
           [(6, BodyBytes [1])], failure = Some (new_Error ''Error reading MPIs''),
         logged = parse_errors example_reader_io example_allowed \<lparr>tolerant = False\<rparr>
           [(6, BodyBytes [1])] @ [new_Error ''Error reading MPIs'']\<rparr> \<and>
      PacketList_read example_reader_io example_allowed \<lparr>tolerant = False\<rparr>
        ([(6, BodyBytes [1])] @ (6, BodyBytes [0xFF, 0xFF])
           # [(6, BodyBytes [2]), (6, BodyBytes [0xFF]), (6, BodyBytes [3])]) =
        Inl (new_Error ''Error reading MPIs'')"
    by blast
  from b have b': "read_stream example_reader_io example_allowed \<lparr>tolerant = False\<rparr>
        example_tokens =
        \<lparr>delivered = [(6, [1])], failure = Some (new_Error ''Error reading MPIs''),
         logged = [new_Error ''Error reading MPIs'']\<rparr> \<and>
      PacketList_read example_reader_io example_allowed \<lparr>tolerant = False\<rparr>
        example_tokens = Inl (new_Error ''Error reading MPIs'')"
    by (simp add: pk example_tokens_def)
  show ?thesis
    using a b' by (simp add: pk example_streaming)
qed

section \<open>Theorems: Secret-Key packet\<close>

text \<open>
  C5. Take a secret-key packet that is not a dummy and not decrypted, with its key
  material and IV in place, and a passphrase from which the S2K specifier derives \<open>key\<close>.
  With usage 253, when the AEAD decryption under \<open>key\<close> fails on the authentication tag,
  and with usage 254, when the last 20 octets of the CFB decryption under \<open>key\<close> are not
  the SHA-1 of the octets before them, \<open>decrypt\<close> throws an incorrect-passphrase error,
  and the packet and the arrays it refers to are exactly as they were on entry.
\<close>

theorem decrypt_wrong_passphrase:
  assumes "\<not> isDummy p"
    and "\<not> isDecrypted p"
    and "produceEncryptionKey env (s2k p) passphrase (symmetric p) = Inr key"
    and "keyMaterial p = Some km"
    and "iv p = Some ivv"
  shows "(s2kUsage p = 253 \<and> aead_ivLength env (aead p) = Some n \<and>
          aead_decrypt env (aead p) (symmetric p) key (load h km)
            (subarray (load h ivv) 0 (int n)) [] = Inl err \<and>
          err_message err = ''Authentication tag mismatch'' \<longrightarrow>
            decrypt env h p passphrase =
              (Inl (new_Error ''Incorrect key passphrase: Authentication tag mismatch''), p, h)) \<and>
         (s2kUsage p = 254 \<and>
          cfb_decrypt env (symmetric p) key (load h km) (load h ivv) = Inr cleartextWithHash \<and>
          hash_sha1 env (subarray cleartextWithHash 0 (- 20)) \<noteq>
            subarray_from cleartextWithHash (- 20) \<longrightarrow>
            decrypt env h p passphrase = (Inl (new_Error ''Incorrect key passphrase''), p, h))"
proof (intro conjI impI)
  assume a: "s2kUsage p = 253 \<and> aead_ivLength env (aead p) = Some n \<and>
          aead_decrypt env (aead p) (symmetric p) key (load h km)
            (subarray (load h ivv) 0 (int n)) [] = Inl err \<and>
          err_message err = ''Authentication tag mismatch''"
  have k: "decrypt_key env p passphrase = Inr key"
    using a assms(3) by (simp add: decrypt_key_def)
  have c: "decrypt_cleartext env h p key =
             Inl (new_Error ''Incorrect key passphrase: Authentication tag mismatch'')"
    using a assms(4,5) by (simp add: decrypt_cleartext_def)
  show "decrypt env h p passphrase =
          (Inl (new_Error ''Incorrect key passphrase: Authentication tag mismatch''), p, h)"
    using assms(1,2) by (simp add: decrypt_def k c)
next
  assume a: "s2kUsage p = 254 \<and>
          cfb_decrypt env (symmetric p) key (load h km) (load h ivv) = Inr cleartextWithHash \<and>
          hash_sha1 env (subarray cleartextWithHash 0 (- 20)) \<noteq>
            subarray_from cleartextWithHash (- 20)"
  have k: "decrypt_key env p passphrase = Inr key"
    using a assms(3) by (simp add: decrypt_key_def)
  have c: "decrypt_cleartext env h p key = Inl (new_Error ''Incorrect key passphrase'')"
    using a assms(4,5) by (simp add: decrypt_cleartext_def Let_def)
  show "decrypt env h p passphrase = (Inl (new_Error ''Incorrect key passphrase''), p, h)"
    using assms(1,2) by (simp add: decrypt_def k c)
qed

lemma example_protected_facts:
  "\<not> isDummy (example_protected u)"
  "\<not> isDecrypted (example_protected u)"
  "produceEncryptionKey example_sk_env (s2k (example_protected u)) ''wrong''
     (symmetric (example_protected u)) = Inr (replicate 32 5)"
  "keyMaterial (example_protected u) =
     Some \<lparr>v_buf = 0, v_off = 0, v_len = (if u = 253 then 4 else 23)\<rparr>"
  "iv (example_protected u) = Some \<lparr>v_buf = 1, v_off = 0, v_len = 16\<rparr>"
  by (simp_all add: example_protected_def isDummy_def isDecrypted_def example_s2k_def
      produceEncryptionKey_def example_sk_env_def)

lemma key_octet_5: "key_octet (replicate 32 5) = 5"
  by code_simp

lemma example_aead_fails:
  "s2kUsage (example_protected 253) = 253 \<and>
   aead_ivLength example_sk_env (aead (example_protected 253)) = Some 16 \<and>
   aead_decrypt example_sk_env (aead (example_protected 253))
     (symmetric (example_protected 253)) (replicate 32 5)
     (load (example_heap 253) \<lparr>v_buf = 0, v_off = 0, v_len = 4\<rparr>)
     (subarray (load (example_heap 253) \<lparr>v_buf = 1, v_off = 0, v_len = 16\<rparr>) 0 (int 16)) [] =
     Inl (Error ''Error'' ''Authentication tag mismatch'') \<and>
   err_message (Error ''Error'' ''Authentication tag mismatch'') =
     ''Authentication tag mismatch''"
  by (simp add: example_protected_def example_sk_env_def example_heap_def load_def key_octet_5)

lemma example_cfb_fails:
  "s2kUsage (example_protected 254) = 254 \<and>
   cfb_decrypt example_sk_env (symmetric (example_protected 254)) (replicate 32 5)
     (load (example_heap 254) \<lparr>v_buf = 0, v_off = 0, v_len = 23\<rparr>)
     (load (example_heap 254) \<lparr>v_buf = 1, v_off = 0, v_len = 16\<rparr>) =
     Inr ([0xAC, 0xBD, 0xCE] @ replicate 20 0x33) \<and>
   hash_sha1 example_sk_env (subarray ([0xAC, 0xBD, 0xCE] @ replicate 20 0x33) 0 (- 20)) \<noteq>
     subarray_from ([0xAC, 0xBD, 0xCE] @ replicate 20 0x33) (- 20)"
  by (simp add: example_protected_def example_sk_env_def example_heap_def load_def key_octet_5
      subarray_def subarray_from_def clamp_index_def)

theorem decrypt_wrong_passphrase_witness:
  "decrypt example_sk_env (example_heap 253) (example_protected 253) ''wrong'' =
     (Inl (new_Error ''Incorrect key passphrase: Authentication tag mismatch''),
      example_protected 253, example_heap 253) \<and>
   decrypt example_sk_env (example_heap 254) (example_protected 254) ''wrong'' =
     (Inl (new_Error ''Incorrect key passphrase''), example_protected 254, example_heap 254)"
  using decrypt_wrong_passphrase
      [OF example_protected_facts, where u1 = 253 and h = "example_heap 253" and n = 16
        and err = "Error ''Error'' ''Authentication tag mismatch''"]
    decrypt_wrong_passphrase
      [OF example_protected_facts, where u1 = 254 and h = "example_heap 254"
        and cleartextWithHash = "[0xAC, 0xBD, 0xCE] @ replicate 20 0x33"]
    example_aead_fails example_cfb_fails
  by simp


lemma length_fill: "length (fill h v x) = length h"
  by (simp add: fill_def)

lemma fill_buffer_length: "length (fill h v x ! k) = length (h ! k)"
  by (cases "k = v_buf v") (auto simp add: fill_def nth_list_update min_def)

lemma nth_fill:
  assumes "k < length h" and "i < length (h ! k)"
  shows "fill h v x ! k ! i =
           (if k = v_buf v \<and> v_off v \<le> i \<and> i < v_off v + v_len v then x else h ! k ! i)"
proof (cases "k = v_buf v")
  case False
  then show ?thesis by (simp add: fill_def)
next
  case True
  show ?thesis
    using assms True
    by (auto simp add: fill_def nth_append min_def)
qed

lemma cleared_length:
  "length (foldl (\<lambda>h' param. fill h' (snd param) 0) h ps) = length h"
  by (induction ps arbitrary: h) (simp_all add: length_fill)

lemma cleared_buffer_length:
  "length (foldl (\<lambda>h' param. fill h' (snd param) 0) h ps ! k) = length (h ! k)"
  by (induction ps arbitrary: h) (simp_all add: fill_buffer_length)

lemma cleared_nth:
  assumes "k < length h" and "i < length (h ! k)"
  shows "foldl (\<lambda>h' param. fill h' (snd param) 0) h ps ! k ! i =
           (if \<exists>param \<in> set ps. k = v_buf (snd param) \<and> v_off (snd param) \<le> i \<and>
                 i < v_off (snd param) + v_len (snd param)
            then 0 else h ! k ! i)"
  using assms
proof (induction ps arbitrary: h)
  case Nil
  then show ?case by simp
next
  case (Cons a ps)
  have k': "k < length (fill h (snd a) 0)" using Cons.prems by (simp add: length_fill)
  have i': "i < length (fill h (snd a) 0 ! k)" using Cons.prems by (simp add: fill_buffer_length)
  show ?case
    using Cons.IH [OF k' i'] Cons.prems by (auto simp add: nth_fill)
qed

lemma cleared_other_buffer:
  assumes "\<forall>param \<in> set ps. v_buf (snd param) \<noteq> k"
  shows "foldl (\<lambda>h' param. fill h' (snd param) 0) h ps ! k = h ! k"
  using assms by (induction ps arbitrary: h) (simp_all add: fill_def)

lemma load_cleared_within:
  assumes "param \<in> set ps" and "valid_view h (snd param)" and "within w (snd param)"
  shows "load (foldl (\<lambda>h' param. fill h' (snd param) 0) h ps) w = replicate (v_len w) 0"
proof -
  let ?h' = "foldl (\<lambda>h' param. fill h' (snd param) 0) h ps"
  let ?k = "v_buf w"
  have k: "?k < length h" and fits: "v_off w + v_len w \<le> length (h ! ?k)"
    using assms(2,3) by (auto simp add: valid_view_def within_def)
  have len: "length (?h' ! ?k) = length (h ! ?k)" by (rule cleared_buffer_length)
  have l: "load ?h' w = take (v_len w) (drop (v_off w) (?h' ! ?k))"
    using k by (simp add: load_def cleared_length)
  show ?thesis
  proof (rule nth_equalityI)
    show "length (load ?h' w) = length (replicate (v_len w) (0 :: byte))"
      using fits by (simp add: l len)
  next
    fix j assume "j < length (load ?h' w)"
    then have j: "j < v_len w" by (simp add: l)
    then have i: "v_off w + j < length (h ! ?k)" using fits by simp
    have "?h' ! ?k ! (v_off w + j) = 0"
      using cleared_nth [OF k i, of ps] assms(1,3) j by (auto simp add: within_def)
    then show "load ?h' w ! j = replicate (v_len w) 0 ! j"
      using j i by (simp add: l len)
  qed
qed

lemma load_cleared_other:
  assumes "\<forall>param \<in> set ps. v_buf (snd param) \<noteq> v_buf w"
  shows "load (foldl (\<lambda>h' param. fill h' (snd param) 0) h ps) w = load h w"
  using cleared_other_buffer [OF assms, of h] by (simp add: load_def cleared_length)

text \<open>
  C6, amended. For a packet that is not a dummy and holds private parameters whose
  arrays lie in the store, \<open>clearPrivateParams\<close> succeeds; the packet afterwards differs
  only in \<open>privateParams\<close>, now \<open>null\<close>, and \<open>isEncrypted\<close>, now true; every view that
  lies within a parameter array reads as zeros only; and every view into a buffer that no
  parameter uses reads as before. \<open>keyMaterial\<close> is among the fields left alone: the
  reference stays, and the array behind it is not written unless a parameter shares its
  buffer.
\<close>

theorem clearPrivateParams_zeroes_parameters:
  assumes "\<not> isDummy p"
    and "privateParams p = Some params"
    and "\<forall>param \<in> set params. valid_view h (snd param)"
  shows "fst (clearPrivateParams h p) = Inr () \<and>
         fst (snd (clearPrivateParams h p)) = p\<lparr>privateParams := None, isEncrypted := Some True\<rparr> \<and>
         (\<forall>param \<in> set params. \<forall>w. within w (snd param) \<longrightarrow>
            load (snd (snd (clearPrivateParams h p))) w = replicate (v_len w) 0) \<and>
         (\<forall>w. (\<forall>param \<in> set params. v_buf (snd param) \<noteq> v_buf w) \<longrightarrow>
            load (snd (snd (clearPrivateParams h p))) w = load h w)"
proof -
  have r: "clearPrivateParams h p =
             (Inr (), p\<lparr>privateParams := None, isEncrypted := Some True\<rparr>,
              foldl (\<lambda>h' param. fill h' (snd param) 0) h params)"
    using assms(1,2) by (simp add: clearPrivateParams_def)
  show ?thesis
    using assms(3) by (simp add: r load_cleared_within load_cleared_other)
qed

lemma example_written_value:
  "example_written =
     (Inr [4, 0x4D, 0x3C, 0x5C, 0x10, 19, 1, 2, 3, 4, 0, 0xAA, 0xBB, 0xCC, 2, 0x31],
      example_decrypted\<lparr>keyMaterial := Some \<lparr>v_buf = 1, v_off = 0, v_len = 3\<rparr>\<rparr>,
      [[0, 0xAA, 0xBB, 0xCC, 0], [0xAA, 0xBB, 0xCC]])"
  by (simp add: example_written_def sk_write_def writePublicKey_def optionalFields_def
      example_sk_env_def example_decrypted_def example_decrypted_heap_def enums_write_def
      enums_write_name_def example_registry_def isDummy_def load_def alloc_def
      writeChecksum_def writeNumber_2 Let_def)

text \<open>
  C6. The claim: after \<open>clearPrivateParams\<close> no secret octet is reachable through the
  packet. Take the decrypted example key, whose secret octets are AA BB CC, call
  \<open>write()\<close> (for an unprotected key it stores the serialized private parameters in
  \<open>this.keyMaterial\<close>) and then \<open>clearPrivateParams()\<close>: the parameters are gone, and
  \<open>keyMaterial\<close> still refers to an array that holds AA BB CC.
\<close>

theorem clearPrivateParams_leaves_keyMaterial:
  "fst example_written =
     Inr [4, 0x4D, 0x3C, 0x5C, 0x10, 19, 1, 2, 3, 4, 0, 0xAA, 0xBB, 0xCC, 2, 0x31] \<and>
   fst example_cleared = Inr () \<and>
   privateParams (fst (snd example_cleared)) = None \<and>
   keyMaterial (fst (snd example_cleared)) = Some \<lparr>v_buf = 1, v_off = 0, v_len = 3\<rparr> \<and>
   load (snd (snd example_cleared)) \<lparr>v_buf = 1, v_off = 0, v_len = 3\<rparr> = [0xAA, 0xBB, 0xCC]"
  by (simp add: example_cleared_def example_written_value clearPrivateParams_def isDummy_def
      example_decrypted_def fill_def load_def)

theorem clearPrivateParams_zeroes_parameters_witness:
  "fst example_cleared = Inr () \<and>
   load (snd (snd example_cleared)) \<lparr>v_buf = 0, v_off = 2, v_len = 2\<rparr> = [0, 0] \<and>
   load (snd (snd example_cleared)) \<lparr>v_buf = 1, v_off = 0, v_len = 3\<rparr> =
     load (snd (snd example_written)) \<lparr>v_buf = 1, v_off = 0, v_len = 3\<rparr>"
proof -
  let ?p = "fst (snd example_written)" and ?h = "snd (snd example_written)"
  have a: "\<not> isDummy ?p"
    by (simp add: example_written_value isDummy_def example_decrypted_def)
  have b: "privateParams ?p = Some [(''d'', \<lparr>v_buf = 0, v_off = 1, v_len = 3\<rparr>)]"
    by (simp add: example_written_value example_decrypted_def)
  have c: "\<forall>param \<in> set [(''d'', \<lparr>v_buf = 0, v_off = 1, v_len = 3\<rparr>)].
             valid_view ?h (snd param)"
    by (simp add: valid_view_def example_written_value)
  have w: "within \<lparr>v_buf = 0, v_off = 2, v_len = 2\<rparr> \<lparr>v_buf = 0, v_off = 1, v_len = 3\<rparr>"
    by (simp add: within_def)
  note t = clearPrivateParams_zeroes_parameters [OF a b c]
  from t have "fst (clearPrivateParams ?h ?p) = Inr ()"
    by blast
  moreover from t w
  have "load (snd (snd (clearPrivateParams ?h ?p))) \<lparr>v_buf = 0, v_off = 2, v_len = 2\<rparr> =
          replicate 2 0"
    by fastforce
  moreover from t
  have "load (snd (snd (clearPrivateParams ?h ?p))) \<lparr>v_buf = 1, v_off = 0, v_len = 3\<rparr> =
          load ?h \<lparr>v_buf = 1, v_off = 0, v_len = 3\<rparr>"
    by fastforce
  ultimately show ?thesis by (simp add: numeral_2_eq_2 example_cleared_def)
qed

end
